theory Spec2Isabelle
  imports Main
begin

section \<open>Values, errors and parameters\<close>

text \<open>
  The ten parameter types of \<^verbatim>\<open>types.go\<close> (\<^verbatim>\<open>StringParam\<close> ... \<^verbatim>\<open>DurationListParam\<close>)
  all embed the generic \<^verbatim>\<open>param[T]\<close>. The model has one record for \<^verbatim>\<open>param[T]\<close>, a tag
  \<open>kind\<close> telling which of the ten types the parameter is, and a sum type for the values
  of \<^verbatim>\<open>T\<close>. The type variable \<open>'f\<close> stands for \<^verbatim>\<open>float64\<close>, which is left abstract.
  Go's \<^verbatim>\<open>int\<close>, \<^verbatim>\<open>int64\<close> and \<^verbatim>\<open>time.Duration\<close> (nanoseconds) are \<open>int\<close>: the code does no
  arithmetic on them. A slice is a list; \<^verbatim>\<open>nil\<close> and the empty slice are both \<open>[]\<close>.
\<close>

datatype kind =
  KString | KInt | KBool | KFloat | KDuration
  | KStringList | KIntList | KBoolList | KFloatList | KDurationList

datatype 'f val =
  VString string | VInt int | VBool bool | VFloat 'f | VDuration int
  | VList "'f val list"

text \<open>
  A value of Go's \<^verbatim>\<open>any\<close>, as the sources return it and as the type switches of
  \<^verbatim>\<open>setFromAny\<close> tell it apart. \<open>ANil\<close> is the \<^verbatim>\<open>nil\<close> interface. \<open>AOther\<close> is a value of
  any dynamic type that no type switch names (its payload only identifies it).
\<close>

datatype 'f any =
  ANil
  | AString string
  | AInt int
  | AInt64 int
  | AFloat64 'f
  | AFloat32 'f
  | ABool bool
  | ASlice "'f any list"
  | AMap "string \<Rightarrow> 'f any option"
  | AStrings "string list"
  | AInts "int list"
  | ABools "bool list"
  | AFloat64s "'f list"
  | ADurations "int list"
  | AOther string

text \<open>The three error records of \<^verbatim>\<open>errors.go\<close>; \<open>Err\<close> of a \<^verbatim>\<open>ParseError\<close> may be nil.\<close>

datatype 'f cfg_error =
  ParseError (Key: string) (Value: string) (Expected: string) (Err: "string option")
  | ValidationError string "'f val" string
  | RequiredError string

text \<open>
  \<^verbatim>\<open>param[T]\<close>. The fields \<^verbatim>\<open>value\<close>, \<^verbatim>\<open>set\<close> and \<^verbatim>\<open>k\<close> are \<open>valueP\<close>, \<open>setP\<close> and \<open>kP\<close> here.
  A validator \<^verbatim>\<open>func(T) error\<close> returns the error's message or nothing.
\<close>

record 'f param =
  kind :: kind
  valueP :: "'f val"
  defaultVal :: "'f val"
  hasDefVal :: bool
  setP :: bool
  required :: bool
  desc :: string
  kP :: string
  secret :: bool
  validators :: "('f val \<Rightarrow> string option) list"

definition IsSet :: "'f param \<Rightarrow> bool" where
  "IsSet p = setP p"

definition key :: "'f param \<Rightarrow> string" where
  "key p = kP p"

definition setKey :: "'f param \<Rightarrow> string \<Rightarrow> 'f param" where
  "setKey p k = p\<lparr>kP := k\<rparr>"

definition isRequired :: "'f param \<Rightarrow> bool" where
  "isRequired p = required p"

definition hasDefault :: "'f param \<Rightarrow> bool" where
  "hasDefault p = hasDefVal p"

text \<open>\<^verbatim>\<open>validate\<close>: the first validator that fails gives the one ValidationError.\<close>

fun validate_loop :: "('f val \<Rightarrow> string option) list \<Rightarrow> 'f param \<Rightarrow> 'f cfg_error option" where
  "validate_loop [] p = None"
| "validate_loop (v # vs) p =
     (case v (valueP p) of
        Some msg \<Rightarrow> Some (ValidationError (kP p) (valueP p) msg)
      | None \<Rightarrow> validate_loop vs p)"

definition validate :: "'f param \<Rightarrow> 'f cfg_error option" where
  "validate p = validate_loop (validators p) p"

section \<open>The Go library\<close>

text \<open>
  Functions of Go's standard library that the code calls and whose bodies are not part of
  the repository are parameters of the model: every theorem holds for whatever they
  compute. A parser returns \<open>Inr\<close> of the value or \<open>Inl\<close> of the error's text.
  \<open>int_of_float64\<close> is the conversion \<^verbatim>\<open>int(val)\<close> (and \<^verbatim>\<open>time.Duration(val)\<close>) of a \<^verbatim>\<open>float64\<close>,
  \<open>float64_of_int\<close> is \<^verbatim>\<open>float64(val)\<close>; a \<^verbatim>\<open>float32\<close> converts to the same number, and
  \<^verbatim>\<open>int\<close> is taken to be 64 bits wide, so that \<^verbatim>\<open>int(val)\<close> of an \<^verbatim>\<open>int64\<close> is \<open>val\<close>.
\<close>

record 'f golib =
  strconv_Atoi :: "string \<Rightarrow> string + int"
  strconv_ParseBool :: "string \<Rightarrow> string + bool"
  strconv_ParseFloat :: "string \<Rightarrow> string + 'f"
  time_ParseDuration :: "string \<Rightarrow> string + int"
  strings_TrimSpace :: "string \<Rightarrow> string"
  strings_ToUpper :: "string \<Rightarrow> string"
  strings_explode :: "string \<Rightarrow> string list"
  fmt_Sprint :: "'f any \<Rightarrow> string"
  int_of_float64 :: "'f \<Rightarrow> int"
  float64_of_int :: "int \<Rightarrow> 'f"

text \<open>The string functions with a short definition are written out.\<close>

definition strings_HasPrefix :: "string \<Rightarrow> string \<Rightarrow> bool" where
  "strings_HasPrefix s pre = (take (length pre) s = pre)"

definition strings_TrimPrefix :: "string \<Rightarrow> string \<Rightarrow> string" where
  "strings_TrimPrefix s pre = (if strings_HasPrefix s pre then drop (length pre) s else s)"

text \<open>\<^verbatim>\<open>strings.Index\<close>: the index of the first instance of \<open>sub\<close> in \<open>s\<close>, or \<open>-1\<close>.\<close>

fun strings_Index :: "string \<Rightarrow> string \<Rightarrow> int" where
  "strings_Index [] sub = (if sub = [] then 0 else -1)"
| "strings_Index (c # cs) sub =
     (if strings_HasPrefix (c # cs) sub then 0
      else (let r = strings_Index cs sub in if r = -1 then -1 else r + 1))"

text \<open>\<^verbatim>\<open>strings.ReplaceAll\<close> for a one-byte \<open>old\<close> and \<open>new\<close>, as \<^verbatim>\<open>envSource.get\<close> calls it.\<close>

definition strings_ReplaceAll1 :: "string \<Rightarrow> char \<Rightarrow> char \<Rightarrow> string" where
  "strings_ReplaceAll1 s old new = map (\<lambda>c. if c = old then new else c) s"

text \<open>
  \<^verbatim>\<open>strings.Split\<close>. With an empty separator Go explodes the string into its UTF-8
  sequences (\<open>strings_explode\<close>); otherwise it cuts at each instance of the separator,
  found from left to right by \<^verbatim>\<open>Index\<close>.
\<close>

function split_sep :: "string \<Rightarrow> string \<Rightarrow> string list" where
  "split_sep s sep =
     (let m = strings_Index s sep in
      if m < 0 \<or> sep = [] then [s]
      else take (nat m) s # split_sep (drop (nat m + length sep) s) sep)"
  by pat_completeness auto
termination
proof (relation "measure (\<lambda>(s, sep). length s)")
  show "wf (measure (\<lambda>(s, sep). length s))" by simp
next
  fix s sep :: string and m :: int
  assume m: "m = strings_Index s sep" and c: "\<not> (m < 0 \<or> sep = [])"
  have bound: "0 \<le> strings_Index t sub \<Longrightarrow> nat (strings_Index t sub) + length sub \<le> length t"
    for t sub :: string
  proof (induction t)
    case Nil
    then show ?case by (simp split: if_splits)
  next
    case (Cons c cs)
    show ?case
    proof (cases "strings_HasPrefix (c # cs) sub")
      case True
      then have "take (length sub) (c # cs) = sub"
        by (simp add: strings_HasPrefix_def)
      then have "length (take (length sub) (c # cs)) = length sub"
        by simp
      then have "length sub \<le> length (c # cs)"
        by (simp add: min_def split: if_splits)
      with True show ?thesis by simp
    next
      case False
      with Cons show ?thesis by (simp add: Let_def split: if_splits)
    qed
  qed
  from m c have "nat m + length sep \<le> length s"
    using bound [of s sep] by simp
  moreover from c have "1 \<le> length sep" by (cases sep) simp_all
  ultimately have "length s - (nat m + length sep) < length s"
    by arith
  then show "((drop (nat m + length sep) s, sep), (s, sep)) \<in> measure (\<lambda>(s, sep). length s)"
    by simp
qed

declare split_sep.simps [simp del]

definition strings_Split :: "'f golib \<Rightarrow> string \<Rightarrow> string \<Rightarrow> string list" where
  "strings_Split L s sep = (if sep = [] then strings_explode L s else split_sep s sep)"

section \<open>Coercion (types.go)\<close>

text \<open>
  Each \<^verbatim>\<open>setFromString\<close> and \<^verbatim>\<open>setFromAny\<close> returns the error (or nothing) and the parameter
  as the call leaves it. \<open>fill\<close> is the loop \<^verbatim>\<open>for i, x := range xs\<close> of the list
  types: it stores each converted element at its index of the slice made before the loop
  and returns at the first element that fails, leaving the rest of the slice untouched.
\<close>

fun fill :: "('a \<Rightarrow> 'f cfg_error + 'f val) \<Rightarrow> 'f val list \<Rightarrow> nat \<Rightarrow> 'a list
    \<Rightarrow> 'f cfg_error option \<times> 'f val list" where
  "fill conv vs i [] = (None, vs)"
| "fill conv vs i (x # xs) =
     (case conv x of
        Inl e \<Rightarrow> (Some e, vs)
      | Inr v \<Rightarrow> fill conv (vs[i := v]) (Suc i) xs)"

text \<open>What the list types do after the loop: \<^verbatim>\<open>p.set = true\<close> only if no element failed.\<close>

definition filled :: "'f param \<Rightarrow> 'f cfg_error option \<times> 'f val list
    \<Rightarrow> 'f cfg_error option \<times> 'f param" where
  "filled p r =
     (case fst r of
        Some e \<Rightarrow> (Some e, p\<lparr>valueP := VList (snd r)\<rparr>)
      | None \<Rightarrow> (None, p\<lparr>valueP := VList (snd r), setP := True\<rparr>))"

definition StringParam_setFromString :: "'f param \<Rightarrow> string \<Rightarrow> string
    \<Rightarrow> 'f cfg_error option \<times> 'f param" where
  "StringParam_setFromString p s sep = (None, p\<lparr>valueP := VString s, setP := True\<rparr>)"

definition StringParam_setFromAny :: "'f golib \<Rightarrow> 'f param \<Rightarrow> 'f any \<Rightarrow> string
    \<Rightarrow> 'f cfg_error option \<times> 'f param" where
  "StringParam_setFromAny L p v sep =
     (case v of
        AString val \<Rightarrow> (None, p\<lparr>valueP := VString val, setP := True\<rparr>)
      | _ \<Rightarrow> (None, p\<lparr>valueP := VString (fmt_Sprint L v), setP := True\<rparr>))"

definition IntParam_setFromString :: "'f golib \<Rightarrow> 'f param \<Rightarrow> string \<Rightarrow> string
    \<Rightarrow> 'f cfg_error option \<times> 'f param" where
  "IntParam_setFromString L p s sep =
     (case strconv_Atoi L s of
        Inl err \<Rightarrow> (Some (ParseError (kP p) s ''int'' (Some err)), p)
      | Inr v \<Rightarrow> (None, p\<lparr>valueP := VInt v, setP := True\<rparr>))"

definition IntParam_setFromAny :: "'f golib \<Rightarrow> 'f param \<Rightarrow> 'f any \<Rightarrow> string
    \<Rightarrow> 'f cfg_error option \<times> 'f param" where
  "IntParam_setFromAny L p v sep =
     (case v of
        AInt val \<Rightarrow> (None, p\<lparr>valueP := VInt val, setP := True\<rparr>)
      | AInt64 val \<Rightarrow> (None, p\<lparr>valueP := VInt val, setP := True\<rparr>)
      | AFloat64 val \<Rightarrow> (None, p\<lparr>valueP := VInt (int_of_float64 L val), setP := True\<rparr>)
      | AString val \<Rightarrow> IntParam_setFromString L p val []
      | _ \<Rightarrow> (Some (ParseError (kP p) (fmt_Sprint L v) ''int'' None), p))"

definition BoolParam_setFromString :: "'f golib \<Rightarrow> 'f param \<Rightarrow> string \<Rightarrow> string
    \<Rightarrow> 'f cfg_error option \<times> 'f param" where
  "BoolParam_setFromString L p s sep =
     (case strconv_ParseBool L s of
        Inl err \<Rightarrow> (Some (ParseError (kP p) s ''bool'' (Some err)), p)
      | Inr v \<Rightarrow> (None, p\<lparr>valueP := VBool v, setP := True\<rparr>))"

definition BoolParam_setFromAny :: "'f golib \<Rightarrow> 'f param \<Rightarrow> 'f any \<Rightarrow> string
    \<Rightarrow> 'f cfg_error option \<times> 'f param" where
  "BoolParam_setFromAny L p v sep =
     (case v of
        ABool val \<Rightarrow> (None, p\<lparr>valueP := VBool val, setP := True\<rparr>)
      | AString val \<Rightarrow> BoolParam_setFromString L p val []
      | _ \<Rightarrow> (Some (ParseError (kP p) (fmt_Sprint L v) ''bool'' None), p))"

definition FloatParam_setFromString :: "'f golib \<Rightarrow> 'f param \<Rightarrow> string \<Rightarrow> string
    \<Rightarrow> 'f cfg_error option \<times> 'f param" where
  "FloatParam_setFromString L p s sep =
     (case strconv_ParseFloat L s of
        Inl err \<Rightarrow> (Some (ParseError (kP p) s ''float64'' (Some err)), p)
      | Inr v \<Rightarrow> (None, p\<lparr>valueP := VFloat v, setP := True\<rparr>))"

definition FloatParam_setFromAny :: "'f golib \<Rightarrow> 'f param \<Rightarrow> 'f any \<Rightarrow> string
    \<Rightarrow> 'f cfg_error option \<times> 'f param" where
  "FloatParam_setFromAny L p v sep =
     (case v of
        AFloat64 val \<Rightarrow> (None, p\<lparr>valueP := VFloat val, setP := True\<rparr>)
      | AFloat32 val \<Rightarrow> (None, p\<lparr>valueP := VFloat val, setP := True\<rparr>)
      | AInt val \<Rightarrow> (None, p\<lparr>valueP := VFloat (float64_of_int L val), setP := True\<rparr>)
      | AInt64 val \<Rightarrow> (None, p\<lparr>valueP := VFloat (float64_of_int L val), setP := True\<rparr>)
      | AString val \<Rightarrow> FloatParam_setFromString L p val []
      | _ \<Rightarrow> (Some (ParseError (kP p) (fmt_Sprint L v) ''float64'' None), p))"

definition DurationParam_setFromString :: "'f golib \<Rightarrow> 'f param \<Rightarrow> string \<Rightarrow> string
    \<Rightarrow> 'f cfg_error option \<times> 'f param" where
  "DurationParam_setFromString L p s sep =
     (case time_ParseDuration L s of
        Inl err \<Rightarrow> (Some (ParseError (kP p) s ''duration'' (Some err)), p)
      | Inr v \<Rightarrow> (None, p\<lparr>valueP := VDuration v, setP := True\<rparr>))"

definition DurationParam_setFromAny :: "'f golib \<Rightarrow> 'f param \<Rightarrow> 'f any \<Rightarrow> string
    \<Rightarrow> 'f cfg_error option \<times> 'f param" where
  "DurationParam_setFromAny L p v sep =
     (case v of
        AString val \<Rightarrow> DurationParam_setFromString L p val []
      | AInt val \<Rightarrow> (None, p\<lparr>valueP := VDuration val, setP := True\<rparr>)
      | AInt64 val \<Rightarrow> (None, p\<lparr>valueP := VDuration val, setP := True\<rparr>)
      | AFloat64 val \<Rightarrow> (None, p\<lparr>valueP := VDuration (int_of_float64 L val), setP := True\<rparr>)
      | _ \<Rightarrow> (Some (ParseError (kP p) (fmt_Sprint L v) ''duration'' None), p))"

definition StringListParam_setFromString :: "'f golib \<Rightarrow> 'f param \<Rightarrow> string \<Rightarrow> string
    \<Rightarrow> 'f cfg_error option \<times> 'f param" where
  "StringListParam_setFromString L p s sep =
     (if s = [] then (None, p\<lparr>valueP := VList [], setP := True\<rparr>)
      else (None, p\<lparr>valueP := VList (map VString (strings_Split L s sep)), setP := True\<rparr>))"

definition StringListParam_setFromAny :: "'f golib \<Rightarrow> 'f param \<Rightarrow> 'f any \<Rightarrow> string
    \<Rightarrow> 'f cfg_error option \<times> 'f param" where
  "StringListParam_setFromAny L p v sep =
     (case v of
        ASlice val \<Rightarrow>
          (None, p\<lparr>valueP := VList (map (\<lambda>item. VString (fmt_Sprint L item)) val), setP := True\<rparr>)
      | AStrings val \<Rightarrow> (None, p\<lparr>valueP := VList (map VString val), setP := True\<rparr>)
      | AString val \<Rightarrow> StringListParam_setFromString L p val sep
      | _ \<Rightarrow> (Some (ParseError (kP p) (fmt_Sprint L v) ''[]string'' None), p))"

definition IntListParam_setFromString :: "'f golib \<Rightarrow> 'f param \<Rightarrow> string \<Rightarrow> string
    \<Rightarrow> 'f cfg_error option \<times> 'f param" where
  "IntListParam_setFromString L p s sep =
     (if s = [] then (None, p\<lparr>valueP := VList [], setP := True\<rparr>)
      else
        (let parts = strings_Split L s sep in
         filled p
           (fill (\<lambda>part.
                case strconv_Atoi L (strings_TrimSpace L part) of
                  Inl err \<Rightarrow> Inl (ParseError (kP p) part ''int'' (Some err))
                | Inr v \<Rightarrow> Inr (VInt v))
              (replicate (length parts) (VInt 0)) 0 parts)))"

definition IntListParam_setFromAny :: "'f golib \<Rightarrow> 'f param \<Rightarrow> 'f any \<Rightarrow> string
    \<Rightarrow> 'f cfg_error option \<times> 'f param" where
  "IntListParam_setFromAny L p v sep =
     (case v of
        ASlice val \<Rightarrow>
          filled p
            (fill (\<lambda>item.
                 case item of
                   AInt n \<Rightarrow> Inr (VInt n)
                 | AInt64 n \<Rightarrow> Inr (VInt n)
                 | AFloat64 n \<Rightarrow> Inr (VInt (int_of_float64 L n))
                 | _ \<Rightarrow> Inl (ParseError (kP p) (fmt_Sprint L item) ''int'' None))
               (replicate (length val) (VInt 0)) 0 val)
      | AInts val \<Rightarrow> (None, p\<lparr>valueP := VList (map VInt val), setP := True\<rparr>)
      | AString val \<Rightarrow> IntListParam_setFromString L p val sep
      | _ \<Rightarrow> (Some (ParseError (kP p) (fmt_Sprint L v) ''[]int'' None), p))"

definition BoolListParam_setFromString :: "'f golib \<Rightarrow> 'f param \<Rightarrow> string \<Rightarrow> string
    \<Rightarrow> 'f cfg_error option \<times> 'f param" where
  "BoolListParam_setFromString L p s sep =
     (if s = [] then (None, p\<lparr>valueP := VList [], setP := True\<rparr>)
      else
        (let parts = strings_Split L s sep in
         filled p
           (fill (\<lambda>part.
                case strconv_ParseBool L (strings_TrimSpace L part) of
                  Inl err \<Rightarrow> Inl (ParseError (kP p) part ''bool'' (Some err))
                | Inr v \<Rightarrow> Inr (VBool v))
              (replicate (length parts) (VBool False)) 0 parts)))"

definition BoolListParam_setFromAny :: "'f golib \<Rightarrow> 'f param \<Rightarrow> 'f any \<Rightarrow> string
    \<Rightarrow> 'f cfg_error option \<times> 'f param" where
  "BoolListParam_setFromAny L p v sep =
     (case v of
        ASlice val \<Rightarrow>
          filled p
            (fill (\<lambda>item.
                 case item of
                   ABool b \<Rightarrow> Inr (VBool b)
                 | _ \<Rightarrow> Inl (ParseError (kP p) (fmt_Sprint L item) ''bool'' None))
               (replicate (length val) (VBool False)) 0 val)
      | ABools val \<Rightarrow> (None, p\<lparr>valueP := VList (map VBool val), setP := True\<rparr>)
      | AString val \<Rightarrow> BoolListParam_setFromString L p val sep
      | _ \<Rightarrow> (Some (ParseError (kP p) (fmt_Sprint L v) ''[]bool'' None), p))"

definition FloatListParam_setFromString :: "'f golib \<Rightarrow> 'f param \<Rightarrow> string \<Rightarrow> string
    \<Rightarrow> 'f cfg_error option \<times> 'f param" where
  "FloatListParam_setFromString L p s sep =
     (if s = [] then (None, p\<lparr>valueP := VList [], setP := True\<rparr>)
      else
        (let parts = strings_Split L s sep in
         filled p
           (fill (\<lambda>part.
                case strconv_ParseFloat L (strings_TrimSpace L part) of
                  Inl err \<Rightarrow> Inl (ParseError (kP p) part ''float64'' (Some err))
                | Inr v \<Rightarrow> Inr (VFloat v))
              (replicate (length parts) (VFloat (float64_of_int L 0))) 0 parts)))"

definition FloatListParam_setFromAny :: "'f golib \<Rightarrow> 'f param \<Rightarrow> 'f any \<Rightarrow> string
    \<Rightarrow> 'f cfg_error option \<times> 'f param" where
  "FloatListParam_setFromAny L p v sep =
     (case v of
        ASlice val \<Rightarrow>
          filled p
            (fill (\<lambda>item.
                 case item of
                   AFloat64 n \<Rightarrow> Inr (VFloat n)
                 | AFloat32 n \<Rightarrow> Inr (VFloat n)
                 | AInt n \<Rightarrow> Inr (VFloat (float64_of_int L n))
                 | AInt64 n \<Rightarrow> Inr (VFloat (float64_of_int L n))
                 | _ \<Rightarrow> Inl (ParseError (kP p) (fmt_Sprint L item) ''float64'' None))
               (replicate (length val) (VFloat (float64_of_int L 0))) 0 val)
      | AFloat64s val \<Rightarrow> (None, p\<lparr>valueP := VList (map VFloat val), setP := True\<rparr>)
      | AString val \<Rightarrow> FloatListParam_setFromString L p val sep
      | _ \<Rightarrow> (Some (ParseError (kP p) (fmt_Sprint L v) ''[]float64'' None), p))"

definition DurationListParam_setFromString :: "'f golib \<Rightarrow> 'f param \<Rightarrow> string \<Rightarrow> string
    \<Rightarrow> 'f cfg_error option \<times> 'f param" where
  "DurationListParam_setFromString L p s sep =
     (if s = [] then (None, p\<lparr>valueP := VList [], setP := True\<rparr>)
      else
        (let parts = strings_Split L s sep in
         filled p
           (fill (\<lambda>part.
                case time_ParseDuration L (strings_TrimSpace L part) of
                  Inl err \<Rightarrow> Inl (ParseError (kP p) part ''duration'' (Some err))
                | Inr v \<Rightarrow> Inr (VDuration v))
              (replicate (length parts) (VDuration 0)) 0 parts)))"

definition DurationListParam_setFromAny :: "'f golib \<Rightarrow> 'f param \<Rightarrow> 'f any \<Rightarrow> string
    \<Rightarrow> 'f cfg_error option \<times> 'f param" where
  "DurationListParam_setFromAny L p v sep =
     (case v of
        ASlice val \<Rightarrow>
          filled p
            (fill (\<lambda>item.
                 case item of
                   AString d \<Rightarrow>
                     (case time_ParseDuration L d of
                        Inl err \<Rightarrow> Inl (ParseError (kP p) d ''duration'' (Some err))
                      | Inr parsed \<Rightarrow> Inr (VDuration parsed))
                 | AInt d \<Rightarrow> Inr (VDuration d)
                 | AInt64 d \<Rightarrow> Inr (VDuration d)
                 | AFloat64 d \<Rightarrow> Inr (VDuration (int_of_float64 L d))
                 | _ \<Rightarrow> Inl (ParseError (kP p) (fmt_Sprint L item) ''duration'' None))
               (replicate (length val) (VDuration 0)) 0 val)
      | ADurations val \<Rightarrow> (None, p\<lparr>valueP := VList (map VDuration val), setP := True\<rparr>)
      | AString val \<Rightarrow> DurationListParam_setFromString L p val sep
      | _ \<Rightarrow> (Some (ParseError (kP p) (fmt_Sprint L v) ''[]duration'' None), p))"

text \<open>
  The methods of the interface \<^verbatim>\<open>Param\<close>: a call goes to the method of the
  parameter's own type.
\<close>

definition setFromString :: "'f golib \<Rightarrow> 'f param \<Rightarrow> string \<Rightarrow> string
    \<Rightarrow> 'f cfg_error option \<times> 'f param" where
  "setFromString L p s listSeparator =
     (case kind p of
        KString \<Rightarrow> StringParam_setFromString p s listSeparator
      | KInt \<Rightarrow> IntParam_setFromString L p s listSeparator
      | KBool \<Rightarrow> BoolParam_setFromString L p s listSeparator
      | KFloat \<Rightarrow> FloatParam_setFromString L p s listSeparator
      | KDuration \<Rightarrow> DurationParam_setFromString L p s listSeparator
      | KStringList \<Rightarrow> StringListParam_setFromString L p s listSeparator
      | KIntList \<Rightarrow> IntListParam_setFromString L p s listSeparator
      | KBoolList \<Rightarrow> BoolListParam_setFromString L p s listSeparator
      | KFloatList \<Rightarrow> FloatListParam_setFromString L p s listSeparator
      | KDurationList \<Rightarrow> DurationListParam_setFromString L p s listSeparator)"

definition setFromAny :: "'f golib \<Rightarrow> 'f param \<Rightarrow> 'f any \<Rightarrow> string
    \<Rightarrow> 'f cfg_error option \<times> 'f param" where
  "setFromAny L p v listSeparator =
     (case kind p of
        KString \<Rightarrow> StringParam_setFromAny L p v listSeparator
      | KInt \<Rightarrow> IntParam_setFromAny L p v listSeparator
      | KBool \<Rightarrow> BoolParam_setFromAny L p v listSeparator
      | KFloat \<Rightarrow> FloatParam_setFromAny L p v listSeparator
      | KDuration \<Rightarrow> DurationParam_setFromAny L p v listSeparator
      | KStringList \<Rightarrow> StringListParam_setFromAny L p v listSeparator
      | KIntList \<Rightarrow> IntListParam_setFromAny L p v listSeparator
      | KBoolList \<Rightarrow> BoolListParam_setFromAny L p v listSeparator
      | KFloatList \<Rightarrow> FloatListParam_setFromAny L p v listSeparator
      | KDurationList \<Rightarrow> DurationListParam_setFromAny L p v listSeparator)"

section \<open>Sources (sources.go)\<close>

text \<open>
  A \<^verbatim>\<open>source\<close> is its method \<^verbatim>\<open>get\<close>: a function from the key to the value found, or
  \<^verbatim>\<open>nil\<close>. The process environment, the file system and the YAML decoder are outside the
  repository; they are the record \<open>world\<close>. \<open>os_ReadFile\<close> returns the content or the
  error, \<open>yaml_Unmarshal\<close> the decoded \<^verbatim>\<open>map[string]any\<close> or the error, \<open>os_Stat\<close> whether
  \<^verbatim>\<open>os.Stat\<close> succeeds.
\<close>

datatype fatal = ReadError (IsNotExist: bool) string | DecodeError string

record 'f world =
  os_LookupEnv :: "string \<Rightarrow> string option"
  os_ReadFile :: "string \<Rightarrow> fatal + string"
  yaml_Unmarshal :: "string \<Rightarrow> fatal + (string \<Rightarrow> 'f any option)"
  os_Stat :: "string \<Rightarrow> bool"
  os_UserHomeDir :: "string option"
  os_ExpandEnv :: "string \<Rightarrow> string"
  filepath_Join :: "string \<Rightarrow> string \<Rightarrow> string"

definition is_nil :: "'f any \<Rightarrow> bool" where
  "is_nil v = (case v of ANil \<Rightarrow> True | _ \<Rightarrow> False)"

text \<open>
  \<^verbatim>\<open>newCLISource\<close>: the loop over the arguments, writing into the map \<^verbatim>\<open>values\<close>. A value
  taken from the next argument is stepped over (\<^verbatim>\<open>i++\<close>).
\<close>

fun cli_loop :: "string list \<Rightarrow> (string \<Rightarrow> string option) \<Rightarrow> (string \<Rightarrow> string option)" where
  "cli_loop [] values = values"
| "cli_loop (a # rest) values =
     (if \<not> strings_HasPrefix a ''--'' then cli_loop rest values
      else
        (let arg = strings_TrimPrefix a ''--''; idx = strings_Index arg ''='' in
         if idx \<noteq> -1
         then cli_loop rest (values(take (nat idx) arg \<mapsto> drop (nat idx + 1) arg))
         else
           (case rest of
              [] \<Rightarrow> cli_loop rest (values(arg \<mapsto> ''true''))
            | nxt # rest' \<Rightarrow>
                if \<not> strings_HasPrefix nxt ''--''
                then cli_loop rest' (values(arg \<mapsto> nxt))
                else cli_loop rest (values(arg \<mapsto> ''true'')))))"

definition newCLISource :: "string list \<Rightarrow> (string \<Rightarrow> string option)" where
  "newCLISource args = cli_loop args Map.empty"

definition cliSource_get :: "(string \<Rightarrow> string option) \<Rightarrow> string \<Rightarrow> 'f any" where
  "cliSource_get values k = (case values k of Some v \<Rightarrow> AString v | None \<Rightarrow> ANil)"

definition envSource_get :: "'f golib \<Rightarrow> 'f world \<Rightarrow> string \<Rightarrow> string \<Rightarrow> 'f any" where
  "envSource_get L W prefix k =
     (let envKey = strings_ToUpper L (strings_ReplaceAll1 k (CHR ''.'') (CHR ''_''));
          envKey = (if prefix \<noteq> [] then prefix @ ''_'' @ envKey else envKey)
      in case os_LookupEnv W envKey of Some v \<Rightarrow> AString v | None \<Rightarrow> ANil)"

definition newYAMLSource :: "'f world \<Rightarrow> string \<Rightarrow> fatal + (string \<Rightarrow> 'f any option)" where
  "newYAMLSource W filename =
     (if filename = [] then Inr Map.empty
      else
        (case os_ReadFile W filename of
           Inl err \<Rightarrow> if IsNotExist err then Inr Map.empty else Inl err
         | Inr content \<Rightarrow> yaml_Unmarshal W content))"

fun yaml_walk :: "'f any \<Rightarrow> string list \<Rightarrow> 'f any" where
  "yaml_walk current [] = current"
| "yaml_walk current (part # parts) =
     (case current of
        AMap m \<Rightarrow> (case m part of None \<Rightarrow> ANil | Some v \<Rightarrow> yaml_walk v parts)
      | _ \<Rightarrow> ANil)"

definition yamlSource_get :: "'f golib \<Rightarrow> (string \<Rightarrow> 'f any option) \<Rightarrow> string \<Rightarrow> 'f any" where
  "yamlSource_get L data k = yaml_walk (AMap data) (strings_Split L k ''.'')"

section \<open>The loader (loader.go)\<close>

record options =
  ConfigFile :: string
  ConfigPaths :: "string list"
  EnvPrefix :: string
  Args :: "string list"
  ListSeparator :: string

fun FindConfigFile :: "'f world \<Rightarrow> string list \<Rightarrow> string" where
  "FindConfigFile W [] = []"
| "FindConfigFile W (p # paths) =
     (let p1 = (if length p > 0 \<and> hd p = CHR ''~''
                then (case os_UserHomeDir W of
                        Some home \<Rightarrow> filepath_Join W home (tl p)
                      | None \<Rightarrow> p)
                else p);
          p2 = os_ExpandEnv W p1
      in if os_Stat W p2 then p2 else FindConfigFile W paths)"

text \<open>The source scan of \<^verbatim>\<open>loadParam\<close>: the first source whose \<^verbatim>\<open>get\<close> is not nil.\<close>

fun scan :: "(string \<Rightarrow> 'f any) list \<Rightarrow> string \<Rightarrow> 'f any" where
  "scan [] k = ANil"
| "scan (src # sources) k = (let v = src k in if \<not> is_nil v then v else scan sources k)"

text \<open>
  The coercion step of \<^verbatim>\<open>loadParam\<close>: a value that is a string goes to \<^verbatim>\<open>setFromString\<close>,
  any other to \<^verbatim>\<open>setFromAny\<close>.
\<close>

definition setFrom :: "'f golib \<Rightarrow> 'f param \<Rightarrow> 'f any \<Rightarrow> string
    \<Rightarrow> 'f cfg_error option \<times> 'f param" where
  "setFrom L p v listSeparator =
     (case v of
        AString s \<Rightarrow> setFromString L p s listSeparator
      | _ \<Rightarrow> setFromAny L p v listSeparator)"

text \<open>
  \<^verbatim>\<open>loadParam\<close> returns the parameter as it leaves it and \<^verbatim>\<open>loadErr.Errors\<close> with the
  errors it added.
\<close>

definition loadParam :: "'f golib \<Rightarrow> 'f param \<Rightarrow> (string \<Rightarrow> 'f any) list \<Rightarrow> options
    \<Rightarrow> 'f cfg_error list \<Rightarrow> 'f param \<times> 'f cfg_error list" where
  "loadParam L p sources opts loadErr =
     (let k = key p;
          v = scan sources k;
          r = (if \<not> is_nil v then setFrom L p v (ListSeparator opts) else (None, p));
          p1 = snd r
      in case fst r of
           Some setErr \<Rightarrow> (p1, loadErr @ [setErr])
         | None \<Rightarrow>
             (let loadErr1 = (case validate p1 of
                                Some err \<Rightarrow> loadErr @ [err]
                              | None \<Rightarrow> loadErr);
                  loadErr2 = (if isRequired p1 \<and> \<not> IsSet p1 \<and> \<not> hasDefault p1
                              then loadErr1 @ [RequiredError k]
                              else loadErr1)
              in (p1, loadErr2)))"

text \<open>
  The configuration structs, as \<^verbatim>\<open>collectParams\<close> sees them through \<^verbatim>\<open>reflect\<close>. A field
  holds a parameter, a struct that is not a parameter, or something else.
  A parameter (\<open>RParam\<close>) is any value whose address implements \<^verbatim>\<open>Param\<close>; the model keeps
  the address of its \<^verbatim>\<open>param[T]\<close>. That is one of the ten types of \<^verbatim>\<open>types.go\<close>, and also a
  struct that embeds one of them: Go promotes the methods of an embedded field, so the
  address of such a struct implements \<^verbatim>\<open>Param\<close> too, and the type assertion of
  \<^verbatim>\<open>collectParams\<close> takes the struct whole, as one parameter, without looking at its other
  fields. A struct that is not a parameter (\<open>RStruct\<close>) therefore has no embedded field
  that is a parameter or leads to one; \<open>embeds_no_param\<close> below says so, and the
  statements about nested structs assume it. The struct handed to \<^verbatim>\<open>collectParams\<close> itself
  is never asked whether it implements \<^verbatim>\<open>Param\<close>; its fields are walked in any case, so it
  alone may embed a parameter.
  Parameters live in a heap from addresses to \<open>param\<close>, which \<^verbatim>\<open>setKey\<close> and \<^verbatim>\<open>loadParam\<close>
  update in place. The argument \<^verbatim>\<open>v\<close> is a pointer to a struct (its fields are
  addressable), a struct passed by value (they are not), or anything else. A result
  \<open>None\<close> is a panic of \<^verbatim>\<open>reflect\<close>: \<^verbatim>\<open>Interface\<close> on an unexported field, \<^verbatim>\<open>Addr\<close> on a
  value that is not addressable.
\<close>

datatype rvalue = RParam nat | RStruct "rfield list" | ROther
  and rfield = Field (tag: string) (Anonymous: bool) (exported: bool) (fvalue: rvalue)

datatype cfg = PointerTo "rfield list" | StructValue "rfield list" | NotStruct

fun collectParams_fields :: "bool \<Rightarrow> rfield list \<Rightarrow> string \<Rightarrow> (nat \<Rightarrow> 'f param)
    \<Rightarrow> (nat list \<times> (nat \<Rightarrow> 'f param)) option" where
  "collectParams_fields canAddr [] prefix h = Some ([], h)"
| "collectParams_fields canAddr (Field tg anon ex fv # flds) prefix h =
     (if tg = [] \<and> \<not> anon then collectParams_fields canAddr flds prefix h
      else
        (let k = (if prefix \<noteq> [] \<and> tg \<noteq> [] then prefix @ ''.'' @ tg
                  else if prefix \<noteq> [] then prefix
                  else tg)
         in if canAddr \<and> \<not> ex then None
            else
              (case fv of
                 RParam a \<Rightarrow>
                   if canAddr
                   then (case collectParams_fields canAddr flds prefix (h(a := setKey (h a) k)) of
                           None \<Rightarrow> None
                         | Some (params, h') \<Rightarrow> Some (a # params, h'))
                   else None
               | RStruct nested_fields \<Rightarrow>
                   if canAddr
                   then (case collectParams_fields True nested_fields k h of
                           None \<Rightarrow> None
                         | Some (nested, h1) \<Rightarrow>
                             (case collectParams_fields canAddr flds prefix h1 of
                                None \<Rightarrow> None
                              | Some (params, h2) \<Rightarrow> Some (nested @ params, h2)))
                   else None
               | ROther \<Rightarrow> collectParams_fields canAddr flds prefix h)))"

definition collectParams :: "cfg \<Rightarrow> string \<Rightarrow> (nat \<Rightarrow> 'f param)
    \<Rightarrow> (nat list \<times> (nat \<Rightarrow> 'f param)) option" where
  "collectParams v prefix h =
     (case v of
        PointerTo flds \<Rightarrow> collectParams_fields True flds prefix h
      | StructValue flds \<Rightarrow> collectParams_fields False flds prefix h
      | NotStruct \<Rightarrow> Some ([], h))"

record loader =
  loader_opts :: options
  registrations :: "(string \<times> cfg) list"

fun collectAllParams_loop :: "(string \<times> cfg) list \<Rightarrow> (nat \<Rightarrow> 'f param)
    \<Rightarrow> (nat list \<times> (nat \<Rightarrow> 'f param)) option" where
  "collectAllParams_loop [] h = Some ([], h)"
| "collectAllParams_loop ((prefix, c) # rs) h =
     (case collectParams c prefix h of
        None \<Rightarrow> None
      | Some (ps, h1) \<Rightarrow>
          (case collectAllParams_loop rs h1 of
             None \<Rightarrow> None
           | Some (rest, h2) \<Rightarrow> Some (ps @ rest, h2)))"

definition collectAllParams :: "loader \<Rightarrow> (nat \<Rightarrow> 'f param)
    \<Rightarrow> (nat list \<times> (nat \<Rightarrow> 'f param)) option" where
  "collectAllParams l h = collectAllParams_loop (registrations l) h"

text \<open>The loop of \<^verbatim>\<open>Load\<close> over the collected parameters.\<close>

fun load_loop :: "'f golib \<Rightarrow> nat list \<Rightarrow> (string \<Rightarrow> 'f any) list \<Rightarrow> options
    \<Rightarrow> 'f cfg_error list \<Rightarrow> (nat \<Rightarrow> 'f param) \<Rightarrow> 'f cfg_error list \<times> (nat \<Rightarrow> 'f param)" where
  "load_loop L [] sources opts loadErr h = (loadErr, h)"
| "load_loop L (a # params) sources opts loadErr h =
     (let r = loadParam L (h a) sources opts loadErr
      in load_loop L params sources opts (snd r) (h(a := fst r)))"

text \<open>
  What \<^verbatim>\<open>Load\<close> returns: \<^verbatim>\<open>nil\<close>, the error of \<^verbatim>\<open>newYAMLSource\<close> as it is, or the
  \<^verbatim>\<open>LoadError\<close> with the collected errors.
\<close>

datatype 'f go_error = NoError | Fatal fatal | LoadError "'f cfg_error list"

definition Load_sources :: "'f golib \<Rightarrow> 'f world \<Rightarrow> options \<Rightarrow> (string \<Rightarrow> 'f any option)
    \<Rightarrow> (string \<Rightarrow> 'f any) list" where
  "Load_sources L W opts yamlSrc =
     [cliSource_get (newCLISource (Args opts)), envSource_get L W (EnvPrefix opts),
      yamlSource_get L yamlSrc]"

text \<open>The first lines of \<^verbatim>\<open>Load\<close>: the default separator and the choice of the file.\<close>

definition Load_opts :: "loader \<Rightarrow> options" where
  "Load_opts l =
     (if ListSeparator (loader_opts l) = [] then (loader_opts l)\<lparr>ListSeparator := '',''\<rparr>
      else loader_opts l)"

definition Load_configFile :: "'f world \<Rightarrow> options \<Rightarrow> string" where
  "Load_configFile W opts =
     (if ConfigFile opts = [] \<and> length (ConfigPaths opts) > 0
      then FindConfigFile W (ConfigPaths opts)
      else ConfigFile opts)"

definition Load :: "'f golib \<Rightarrow> 'f world \<Rightarrow> loader \<Rightarrow> (nat \<Rightarrow> 'f param)
    \<Rightarrow> ('f go_error \<times> (nat \<Rightarrow> 'f param)) option" where
  "Load L W l h =
     (let opts = Load_opts l;
          configFile = Load_configFile W opts
      in case newYAMLSource W configFile of
           Inl err \<Rightarrow> Some (Fatal err, h)
         | Inr yamlSrc \<Rightarrow>
             (case collectAllParams l h of
                None \<Rightarrow> None
              | Some (params, h1) \<Rightarrow>
                  (let r = load_loop L params (Load_sources L W opts yamlSrc) opts [] h1
                   in if length (fst r) > 0 then Some (LoadError (fst r), snd r)
                      else Some (NoError, snd r))))"

text \<open>
  Names for what the list types' loops do with one part of the split text: the parser
  called on the trimmed part, the element kind written into the \<^verbatim>\<open>ParseError\<close>, and the
  zero that \<^verbatim>\<open>make\<close> fills the slice with.
\<close>

definition element_parser :: "'f golib \<Rightarrow> kind \<Rightarrow> string \<Rightarrow> string + 'f val" where
  "element_parser L kd part =
     (case kd of
        KIntList \<Rightarrow> map_sum id VInt (strconv_Atoi L (strings_TrimSpace L part))
      | KBoolList \<Rightarrow> map_sum id VBool (strconv_ParseBool L (strings_TrimSpace L part))
      | KFloatList \<Rightarrow> map_sum id VFloat (strconv_ParseFloat L (strings_TrimSpace L part))
      | KDurationList \<Rightarrow> map_sum id VDuration (time_ParseDuration L (strings_TrimSpace L part))
      | _ \<Rightarrow> Inr (VString part))"

definition element_name :: "kind \<Rightarrow> string" where
  "element_name kd =
     (case kd of
        KIntList \<Rightarrow> ''int''
      | KBoolList \<Rightarrow> ''bool''
      | KFloatList \<Rightarrow> ''float64''
      | KDurationList \<Rightarrow> ''duration''
      | _ \<Rightarrow> ''string'')"

definition element_zero :: "'f golib \<Rightarrow> kind \<Rightarrow> 'f val" where
  "element_zero L kd =
     (case kd of
        KIntList \<Rightarrow> VInt 0
      | KBoolList \<Rightarrow> VBool False
      | KFloatList \<Rightarrow> VFloat (float64_of_int L 0)
      | KDurationList \<Rightarrow> VDuration 0
      | _ \<Rightarrow> VString [])"

text \<open>
  The value that a coercion yields, if it yields one, written as the specification
  describes its two entry points: \<open>fromText\<close> for a raw string (a list is the split text,
  each part parsed on its own after trimming; the empty text is the empty list) and
  \<open>fromStructured\<close> for a decoded value (the native types are taken as they are, a native
  sequence element by element, and a plain string goes to \<open>fromText\<close>). \<open>coerced\<close> picks
  the entry point as \<^verbatim>\<open>loadParam\<close> does. These functions return values only; they are
  what \<^verbatim>\<open>setFromString\<close> and \<^verbatim>\<open>setFromAny\<close> are compared with.
\<close>

definition option_of :: "'e + 'a \<Rightarrow> 'a option" where
  "option_of r = (case r of Inl _ \<Rightarrow> None | Inr v \<Rightarrow> Some v)"

definition fromText :: "'f golib \<Rightarrow> kind \<Rightarrow> string \<Rightarrow> string \<Rightarrow> 'f val option" where
  "fromText L kd s sep =
     (case kd of
        KString \<Rightarrow> Some (VString s)
      | KInt \<Rightarrow> map_option VInt (option_of (strconv_Atoi L s))
      | KBool \<Rightarrow> map_option VBool (option_of (strconv_ParseBool L s))
      | KFloat \<Rightarrow> map_option VFloat (option_of (strconv_ParseFloat L s))
      | KDuration \<Rightarrow> map_option VDuration (option_of (time_ParseDuration L s))
      | KStringList \<Rightarrow>
          if s = [] then Some (VList []) else Some (VList (map VString (strings_Split L s sep)))
      | _ \<Rightarrow>
          if s = [] then Some (VList [])
          else map_option VList
                 (those (map (\<lambda>part. option_of (element_parser L kd part)) (strings_Split L s sep))))"

definition element_of_any :: "'f golib \<Rightarrow> kind \<Rightarrow> 'f any \<Rightarrow> 'f val option" where
  "element_of_any L kd item =
     (case kd of
        KIntList \<Rightarrow>
          (case item of
             AInt n \<Rightarrow> Some (VInt n)
           | AInt64 n \<Rightarrow> Some (VInt n)
           | AFloat64 n \<Rightarrow> Some (VInt (int_of_float64 L n))
           | _ \<Rightarrow> None)
      | KBoolList \<Rightarrow> (case item of ABool b \<Rightarrow> Some (VBool b) | _ \<Rightarrow> None)
      | KFloatList \<Rightarrow>
          (case item of
             AFloat64 n \<Rightarrow> Some (VFloat n)
           | AFloat32 n \<Rightarrow> Some (VFloat n)
           | AInt n \<Rightarrow> Some (VFloat (float64_of_int L n))
           | AInt64 n \<Rightarrow> Some (VFloat (float64_of_int L n))
           | _ \<Rightarrow> None)
      | KDurationList \<Rightarrow>
          (case item of
             AString d \<Rightarrow> map_option VDuration (option_of (time_ParseDuration L d))
           | AInt d \<Rightarrow> Some (VDuration d)
           | AInt64 d \<Rightarrow> Some (VDuration d)
           | AFloat64 d \<Rightarrow> Some (VDuration (int_of_float64 L d))
           | _ \<Rightarrow> None)
      | _ \<Rightarrow> Some (VString (fmt_Sprint L item)))"

definition fromStructured :: "'f golib \<Rightarrow> kind \<Rightarrow> 'f any \<Rightarrow> string \<Rightarrow> 'f val option" where
  "fromStructured L kd v sep =
     (case kd of
        KString \<Rightarrow>
          (case v of AString s \<Rightarrow> Some (VString s) | _ \<Rightarrow> Some (VString (fmt_Sprint L v)))
      | KInt \<Rightarrow>
          (case v of
             AInt n \<Rightarrow> Some (VInt n)
           | AInt64 n \<Rightarrow> Some (VInt n)
           | AFloat64 x \<Rightarrow> Some (VInt (int_of_float64 L x))
           | AString s \<Rightarrow> fromText L kd s sep
           | _ \<Rightarrow> None)
      | KBool \<Rightarrow>
          (case v of
             ABool b \<Rightarrow> Some (VBool b)
           | AString s \<Rightarrow> fromText L kd s sep
           | _ \<Rightarrow> None)
      | KFloat \<Rightarrow>
          (case v of
             AFloat64 x \<Rightarrow> Some (VFloat x)
           | AFloat32 x \<Rightarrow> Some (VFloat x)
           | AInt n \<Rightarrow> Some (VFloat (float64_of_int L n))
           | AInt64 n \<Rightarrow> Some (VFloat (float64_of_int L n))
           | AString s \<Rightarrow> fromText L kd s sep
           | _ \<Rightarrow> None)
      | KDuration \<Rightarrow>
          (case v of
             AString s \<Rightarrow> fromText L kd s sep
           | AInt n \<Rightarrow> Some (VDuration n)
           | AInt64 n \<Rightarrow> Some (VDuration n)
           | AFloat64 x \<Rightarrow> Some (VDuration (int_of_float64 L x))
           | _ \<Rightarrow> None)
      | KStringList \<Rightarrow>
          (case v of
             ASlice items \<Rightarrow> map_option VList (those (map (element_of_any L kd) items))
           | AStrings xs \<Rightarrow> Some (VList (map VString xs))
           | AString s \<Rightarrow> fromText L kd s sep
           | _ \<Rightarrow> None)
      | KIntList \<Rightarrow>
          (case v of
             ASlice items \<Rightarrow> map_option VList (those (map (element_of_any L kd) items))
           | AInts xs \<Rightarrow> Some (VList (map VInt xs))
           | AString s \<Rightarrow> fromText L kd s sep
           | _ \<Rightarrow> None)
      | KBoolList \<Rightarrow>
          (case v of
             ASlice items \<Rightarrow> map_option VList (those (map (element_of_any L kd) items))
           | ABools xs \<Rightarrow> Some (VList (map VBool xs))
           | AString s \<Rightarrow> fromText L kd s sep
           | _ \<Rightarrow> None)
      | KFloatList \<Rightarrow>
          (case v of
             ASlice items \<Rightarrow> map_option VList (those (map (element_of_any L kd) items))
           | AFloat64s xs \<Rightarrow> Some (VList (map VFloat xs))
           | AString s \<Rightarrow> fromText L kd s sep
           | _ \<Rightarrow> None)
      | KDurationList \<Rightarrow>
          (case v of
             ASlice items \<Rightarrow> map_option VList (those (map (element_of_any L kd) items))
           | ADurations xs \<Rightarrow> Some (VList (map VDuration xs))
           | AString s \<Rightarrow> fromText L kd s sep
           | _ \<Rightarrow> None))"

definition coerced :: "'f golib \<Rightarrow> kind \<Rightarrow> 'f any \<Rightarrow> string \<Rightarrow> 'f val option" where
  "coerced L kd v sep =
     (case v of AString s \<Rightarrow> fromText L kd s sep | _ \<Rightarrow> fromStructured L kd v sep)"

section \<open>An instance of the library and of the world\<close>

text \<open>
  To evaluate the model at concrete inputs the library record needs an instance. In the
  one below \<^verbatim>\<open>float64\<close> is \<open>int\<close>. \<open>sample_Atoi\<close> reads an optional sign and decimal
  digits within 64 bits and \<open>sample_ParseBool\<close> the twelve texts of \<^verbatim>\<open>strconv.ParseBool\<close>;
  the float parser reads integers only, the duration parser whole seconds (\<^verbatim>\<open>30s\<close>) only,
  \<open>sample_TrimSpace\<close> and \<open>sample_ToUpper\<close> know ASCII only. They agree with Go on the inputs
  they are used on below.
\<close>

fun digits :: "string \<Rightarrow> int \<Rightarrow> int option" where
  "digits [] acc = Some acc"
| "digits (c # cs) acc =
     (case map_of (zip ''0123456789'' [0, 1, 2, 3, 4, 5, 6, 7, 8, 9]) c of
        None \<Rightarrow> None
      | Some d \<Rightarrow> digits cs (10 * acc + d))"

definition sample_Atoi :: "string \<Rightarrow> string + int" where
  "sample_Atoi s =
     (let neg = (case s of [] \<Rightarrow> False | c # _ \<Rightarrow> c = CHR ''-'');
          body = (case s of [] \<Rightarrow> [] | c # cs \<Rightarrow> if c = CHR ''-'' \<or> c = CHR ''+'' then cs else s)
      in if body = [] then Inl ''invalid syntax''
         else
           (case digits body 0 of
              None \<Rightarrow> Inl ''invalid syntax''
            | Some n \<Rightarrow>
                (let v = (if neg then - n else n)
                 in if v < - (2 ^ 63) \<or> 2 ^ 63 - 1 < v then Inl ''value out of range''
                    else Inr v)))"

definition sample_ParseBool :: "string \<Rightarrow> string + bool" where
  "sample_ParseBool s =
     (if s \<in> set [''1'', ''t'', ''T'', ''TRUE'', ''true'', ''True''] then Inr True
      else if s \<in> set [''0'', ''f'', ''F'', ''FALSE'', ''false'', ''False''] then Inr False
      else Inl ''invalid syntax'')"

definition sample_ParseDuration :: "string \<Rightarrow> string + int" where
  "sample_ParseDuration s =
     (if s \<noteq> [] \<and> last s = CHR ''s''
      then (case digits (butlast s) 0 of
              None \<Rightarrow> Inl ''invalid duration''
            | Some n \<Rightarrow> if butlast s = [] then Inl ''invalid duration'' else Inr (n * 1000000000))
      else Inl ''invalid duration'')"

definition sample_TrimSpace :: "string \<Rightarrow> string" where
  "sample_TrimSpace s =
     rev (dropWhile (\<lambda>c. c \<in> set [CHR '' '', CHR 0x09, CHR 0x0A, CHR 0x0B, CHR 0x0C, CHR 0x0D])
       (rev (dropWhile (\<lambda>c. c \<in> set [CHR '' '', CHR 0x09, CHR 0x0A, CHR 0x0B, CHR 0x0C, CHR 0x0D]) s)))"

definition sample_ToUpper :: "string \<Rightarrow> string" where
  "sample_ToUpper s =
     map (\<lambda>c. case map_of (zip ''abcdefghijklmnopqrstuvwxyz'' ''ABCDEFGHIJKLMNOPQRSTUVWXYZ'') c of
                 None \<Rightarrow> c
               | Some u \<Rightarrow> u) s"

definition sample_Sprint :: "int any \<Rightarrow> string" where
  "sample_Sprint v =
     (case v of
        AString s \<Rightarrow> s
      | ABool b \<Rightarrow> if b then ''true'' else ''false''
      | ANil \<Rightarrow> ''<nil>''
      | _ \<Rightarrow> ''?'')"

definition sample_lib :: "int golib" where
  "sample_lib =
     \<lparr>strconv_Atoi = sample_Atoi, strconv_ParseBool = sample_ParseBool,
      strconv_ParseFloat = sample_Atoi, time_ParseDuration = sample_ParseDuration,
      strings_TrimSpace = sample_TrimSpace, strings_ToUpper = sample_ToUpper,
      strings_explode = map (\<lambda>c. [c]), fmt_Sprint = sample_Sprint,
      int_of_float64 = (\<lambda>x. x), float64_of_int = (\<lambda>x. x)\<rparr>"

text \<open>
  What the builders of \<^verbatim>\<open>builders.go\<close> make: the zero parameter of a kind
  (\<^verbatim>\<open>String()\<close>, \<^verbatim>\<open>Int()\<close>, ...), and \<^verbatim>\<open>Default\<close>, \<^verbatim>\<open>Required\<close>, \<^verbatim>\<open>Validate\<close> on it.
\<close>

definition zero_val :: "kind \<Rightarrow> int val" where
  "zero_val kd =
     (case kd of
        KString \<Rightarrow> VString []
      | KInt \<Rightarrow> VInt 0
      | KBool \<Rightarrow> VBool False
      | KFloat \<Rightarrow> VFloat 0
      | KDuration \<Rightarrow> VDuration 0
      | _ \<Rightarrow> VList [])"

definition new_param :: "kind \<Rightarrow> int param" where
  "new_param kd =
     \<lparr>kind = kd, valueP = zero_val kd, defaultVal = zero_val kd, hasDefVal = False,
      setP = False, required = False, desc = [], kP = [], secret = False, validators = []\<rparr>"

definition Default :: "'f val \<Rightarrow> 'f param \<Rightarrow> 'f param" where
  "Default v p = p\<lparr>defaultVal := v, valueP := v, hasDefVal := True\<rparr>"

definition Required :: "'f param \<Rightarrow> 'f param" where
  "Required p = p\<lparr>required := True\<rparr>"

definition Validate :: "('f val \<Rightarrow> string option) \<Rightarrow> 'f param \<Rightarrow> 'f param" where
  "Validate fn p = p\<lparr>validators := validators p @ [fn]\<rparr>"

text \<open>\<^verbatim>\<open>NotEmpty\<close> of \<^verbatim>\<open>validators.go\<close>.\<close>

definition NotEmpty :: "'f val \<Rightarrow> string option" where
  "NotEmpty v =
     (case v of
        VString s \<Rightarrow> if s = [] then Some ''validation error: string must not be empty'' else None
      | _ \<Rightarrow> None)"

text \<open>
  A world for the examples: two environment variables, a file \<^verbatim>\<open>config.yaml\<close> that decodes
  to a tree with \<^verbatim>\<open>db.host\<close>, \<^verbatim>\<open>db.port\<close>, \<^verbatim>\<open>db.name\<close> and \<^verbatim>\<open>db.max_conns\<close>, a file
  \<^verbatim>\<open>broken.yaml\<close> that does not decode, and no other file.
\<close>

definition db_tree :: "string \<Rightarrow> int any option" where
  "db_tree = [''db'' \<mapsto> AMap [''host'' \<mapsto> AString ''yaml.db.com'', ''port'' \<mapsto> AInt 1111,
                              ''name'' \<mapsto> AString ''mydb'', ''max_conns'' \<mapsto> AInt 50]]"

definition sample_world :: "int world" where
  "sample_world =
     \<lparr>os_LookupEnv = map_of [(''TEST_DB_HOST'', ''env.db.com''), (''TEST_DB_PORT'', ''2222'')],
      os_ReadFile = (\<lambda>f. if f = ''config.yaml''
                         then Inr ''db: {host: yaml.db.com, port: 1111, name: mydb, max_conns: 50}''
                         else if f = ''broken.yaml'' then Inr ''db: [''
                         else Inl (ReadError True ''no such file or directory'')),
      yaml_Unmarshal = (\<lambda>c. if c = ''db: {host: yaml.db.com, port: 1111, name: mydb, max_conns: 50}''
                            then Inr db_tree
                            else Inl (DecodeError ''yaml: did not find expected node content'')),
      os_Stat = (\<lambda>f. f = ''config.yaml'' \<or> f = ''broken.yaml''),
      os_UserHomeDir = Some ''/home/user'',
      os_ExpandEnv = (\<lambda>f. f),
      filepath_Join = (\<lambda>a b. a @ b)\<rparr>"

definition no_options :: options where
  "no_options = \<lparr>ConfigFile = [], ConfigPaths = [], EnvPrefix = [], Args = [], ListSeparator = []\<rparr>"

text \<open>
  The flags that an argument list holds, with their values, in the order in which they
  occur, as the specification describes the three forms (\<^verbatim>\<open>--key=value\<close>, \<^verbatim>\<open>--key value\<close>
  and the bare \<^verbatim>\<open>--key\<close>). This list is not in the code, which writes each flag into its
  map at once; it gives "first occurrence" and "last occurrence" a meaning.
\<close>

fun cliFlags :: "string list \<Rightarrow> (string \<times> string) list" where
  "cliFlags [] = []"
| "cliFlags (a # rest) =
     (if \<not> strings_HasPrefix a ''--'' then cliFlags rest
      else
        (let body = drop 2 a in
         if CHR ''='' \<in> set body
         then (takeWhile (\<lambda>c. c \<noteq> CHR ''='') body, tl (dropWhile (\<lambda>c. c \<noteq> CHR ''='') body))
              # cliFlags rest
         else
           (case rest of
              [] \<Rightarrow> [(body, ''true'')]
            | nxt # rest' \<Rightarrow>
                if strings_HasPrefix nxt ''--'' then (body, ''true'') # cliFlags rest
                else (body, nxt) # cliFlags rest')))"

text \<open>
  The walk as the specification words it, to compare \<^verbatim>\<open>collectParams\<close> with: the dotted
  key of a field under a prefix (\<^verbatim>\<open>prefix.key\<close>, the key alone when the prefix is empty,
  the prefix alone when the key is empty), and the parameters of a struct with their
  dotted keys, depth first in the order of declaration, where a field without key that is
  not embedded is left out. \<open>all_exported\<close> says that every field the walk looks into is
  exported, \<open>assign_key\<close> is \<^verbatim>\<open>setKey\<close> on the parameter at an address.
\<close>

definition dotted_key :: "string \<Rightarrow> string \<Rightarrow> string" where
  "dotted_key prefix k =
     (if prefix = [] then k else if k = [] then prefix else prefix @ ''.'' @ k)"

fun walk_fields :: "rfield list \<Rightarrow> string \<Rightarrow> (nat \<times> string) list" where
  "walk_fields [] prefix = []"
| "walk_fields (Field tg anon ex fv # flds) prefix =
     (if tg = [] \<and> \<not> anon then walk_fields flds prefix
      else
        (case fv of
           RParam a \<Rightarrow> (a, dotted_key prefix tg) # walk_fields flds prefix
         | RStruct nested \<Rightarrow> walk_fields nested (dotted_key prefix tg) @ walk_fields flds prefix
         | ROther \<Rightarrow> walk_fields flds prefix))"

fun all_exported :: "rfield list \<Rightarrow> bool" where
  "all_exported [] = True"
| "all_exported (Field tg anon ex fv # flds) =
     (((tg = [] \<and> \<not> anon) \<or> (ex \<and> (case fv of RStruct nested \<Rightarrow> all_exported nested | _ \<Rightarrow> True)))
      \<and> all_exported flds)"

definition assign_key :: "nat \<times> string \<Rightarrow> (nat \<Rightarrow> 'f param) \<Rightarrow> (nat \<Rightarrow> 'f param)" where
  "assign_key ak h = h(fst ak := setKey (h (fst ak)) (snd ak))"

text \<open>
  The fields of a struct that is not a parameter: no embedded field is a parameter or
  anything but a struct, and the same holds inside every struct among the fields (an
  embedded parameter, or an embedded pointer to one, would make the struct a parameter
  by promotion). \<open>plain_structs\<close> asks this of every struct among the fields of the struct
  that is handed to \<^verbatim>\<open>collectParams\<close>.
\<close>

fun embeds_no_param :: "rfield list \<Rightarrow> bool" where
  "embeds_no_param [] = True"
| "embeds_no_param (Field tg anon ex fv # flds) =
     ((case fv of
         RParam a \<Rightarrow> \<not> anon
       | RStruct nested \<Rightarrow> embeds_no_param nested
       | ROther \<Rightarrow> \<not> anon)
      \<and> embeds_no_param flds)"

fun plain_structs :: "rfield list \<Rightarrow> bool" where
  "plain_structs [] = True"
| "plain_structs (Field tg anon ex fv # flds) =
     ((case fv of RStruct nested \<Rightarrow> embeds_no_param nested | _ \<Rightarrow> True) \<and> plain_structs flds)"

text \<open>
  A struct with a tagged plain string, an untagged parameter, a tagged parameter, a
  tagged struct \<^verbatim>\<open>db\<close> that holds a tagged parameter and a tagged struct \<^verbatim>\<open>pool\<close>, an
  embedded struct with one tagged parameter, and an embedded parameter.
\<close>

definition app_fields :: "rfield list" where
  "app_fields =
     [Field ''host'' False True ROther,
      Field [] False True (RParam 20),
      Field ''port'' False True (RParam 21),
      Field ''db'' False True
        (RStruct [Field ''host'' False True (RParam 22),
                  Field ''pool'' False True (RStruct [Field ''size'' False True (RParam 23)])]),
      Field [] True True (RStruct [Field ''name'' False True (RParam 24)]),
      Field [] True True (RParam 25)]"

text \<open>Parameters and a loader for the examples, made as the builders make them.\<close>

definition required_timeout :: "int param" where
  "required_timeout = setKey (Required (Validate (\<lambda>v. Some ''rejected'') (new_param KDuration))) ''timeout''"

definition required_name :: "int param" where
  "required_name = setKey (Required (new_param KString)) ''name''"

definition defaulted_name :: "int param" where
  "defaulted_name = setKey (Required (Default (VString ''default-name'') (new_param KString))) ''name''"

definition name_loader :: loader where
  "name_loader = \<lparr>loader_opts = no_options,
                   registrations = [([], PointerTo [Field ''name'' False True (RParam 0)])]\<rparr>"

text \<open>
  The setting of the repository's test of the source priority, with more parameters: a
  struct \<^verbatim>\<open>db\<close> with six parameters, the environment prefix \<^verbatim>\<open>TEST\<close>, the file \<^verbatim>\<open>config.yaml\<close>
  and two arguments.
\<close>

definition db_loader :: loader where
  "db_loader =
     \<lparr>loader_opts = \<lparr>ConfigFile = ''config.yaml'', ConfigPaths = [], EnvPrefix = ''TEST'',
                     Args = [''--db.host=cli.db.com'', ''--db.use_ssl''], ListSeparator = []\<rparr>,
      registrations =
        [([], PointerTo [Field ''db'' False True
                           (RStruct [Field ''host'' False True (RParam 10),
                                     Field ''port'' False True (RParam 11),
                                     Field ''name'' False True (RParam 12),
                                     Field ''user'' False True (RParam 13),
                                     Field ''use_ssl'' False True (RParam 14),
                                     Field ''max_conns'' False True (RParam 15)])])]\<rparr>"

definition db_heap :: "nat \<Rightarrow> int param" where
  "db_heap a =
     (if a = 10 then Default (VString ''localhost'') (new_param KString)
      else if a = 11 then Default (VInt 5432) (new_param KInt)
      else if a = 12 then Required (new_param KString)
      else if a = 14 then Default (VBool False) (new_param KBool)
      else if a = 15 then Default (VInt 10) (new_param KInt)
      else Default (VString ''admin'') (new_param KString))"

definition db_keys :: "nat \<Rightarrow> int param" where
  "db_keys =
     db_heap(10 := setKey (db_heap 10) ''db.host'', 11 := setKey (db_heap 11) ''db.port'',
             12 := setKey (db_heap 12) ''db.name'', 13 := setKey (db_heap 13) ''db.user'',
             14 := setKey (db_heap 14) ''db.use_ssl'', 15 := setKey (db_heap 15) ''db.max_conns'')"

section \<open>Coercion: facts about every parameter type\<close>

lemmas setFromString_defs =
  StringParam_setFromString_def IntParam_setFromString_def BoolParam_setFromString_def
  FloatParam_setFromString_def DurationParam_setFromString_def
  StringListParam_setFromString_def IntListParam_setFromString_def
  BoolListParam_setFromString_def FloatListParam_setFromString_def
  DurationListParam_setFromString_def

lemmas setFromAny_defs =
  StringParam_setFromAny_def IntParam_setFromAny_def BoolParam_setFromAny_def
  FloatParam_setFromAny_def DurationParam_setFromAny_def
  StringListParam_setFromAny_def IntListParam_setFromAny_def
  BoolListParam_setFromAny_def FloatListParam_setFromAny_def
  DurationListParam_setFromAny_def

lemma fill_error:
  "fill conv vs i xs = (Some e, vs') \<Longrightarrow> \<exists>x\<in>set xs. conv x = Inl e"
  by (induction xs arbitrary: vs i) (auto split: sum.splits)

lemma filled_error_setP:
  "fst (filled p r) = Some e \<Longrightarrow> setP (snd (filled p r)) = setP p \<and> fst r = Some e"
  by (auto simp: filled_def split: option.splits)

lemma setFromString_error_setP:
  "fst (setFromString L p s sep) = Some e \<Longrightarrow> setP (snd (setFromString L p s sep)) = setP p"
  unfolding setFromString_def
  by (cases "kind p")
     (auto simp: setFromString_defs Let_def split: sum.splits if_splits dest: filled_error_setP)

lemma setFromAny_error_setP:
  "fst (setFromAny L p v sep) = Some e \<Longrightarrow> setP (snd (setFromAny L p v sep)) = setP p"
  unfolding setFromAny_def
  by (cases "kind p"; cases v)
     (auto simp: setFromAny_defs setFromString_defs Let_def split: sum.splits if_splits
        dest: filled_error_setP)

section \<open>C10: a failed coercion leaves the parameter unset\<close>

text \<open>
  C10. For every parameter type and every input: if \<^verbatim>\<open>setFromString\<close> or \<^verbatim>\<open>setFromAny\<close>
  returns an error and the parameter was not set before the call, then \<^verbatim>\<open>IsSet()\<close> is
  still false after it. Every error return of \<^verbatim>\<open>types.go\<close> comes before \<^verbatim>\<open>p.set = true\<close>.
\<close>

theorem coercion_error_leaves_unset:
  assumes "\<not> IsSet p"
  shows "(fst (setFromString L p s sep) \<noteq> None \<longrightarrow> \<not> IsSet (snd (setFromString L p s sep)))
       \<and> (fst (setFromAny L p v sep) \<noteq> None \<longrightarrow> \<not> IsSet (snd (setFromAny L p v sep)))"
  using assms setFromString_error_setP [of L p s sep] setFromAny_error_setP [of L p v sep]
  by (auto simp: IsSet_def)

text \<open>
  An integer list parameter, fresh from its builder, given the text \<^verbatim>\<open>1,x,3\<close> and given
  a boolean: both calls fail and the parameter stays unset.
\<close>

theorem coercion_error_leaves_unset_witness:
  "\<not> IsSet (new_param KIntList)
   \<and> fst (setFromString sample_lib (new_param KIntList) ''1,x,3'' '','') \<noteq> None
   \<and> \<not> IsSet (snd (setFromString sample_lib (new_param KIntList) ''1,x,3'' '',''))
   \<and> fst (setFromAny sample_lib (new_param KIntList) (ABool True) '','') \<noteq> None
   \<and> \<not> IsSet (snd (setFromAny sample_lib (new_param KIntList) (ABool True) '',''))"
proof -
  have h: "\<not> IsSet (new_param KIntList)"
    by (simp add: IsSet_def new_param_def)
  have e1: "fst (setFromString sample_lib (new_param KIntList) ''1,x,3'' '','') \<noteq> None"
    by code_simp
  have e2: "fst (setFromAny sample_lib (new_param KIntList) (ABool True) '','') \<noteq> None"
    by (simp add: setFromAny_def IntListParam_setFromAny_def new_param_def)
  from coercion_error_leaves_unset [OF h, of sample_lib "''1,x,3''" "'',''" "ABool True"] h e1 e2
  show ?thesis by blast
qed

section \<open>C6: the empty text is the empty list\<close>

text \<open>
  C6. For each of the five list types and every separator, \<^verbatim>\<open>setFromString\<close> of the empty
  string succeeds, stores the empty list (not the one-element list holding the empty
  string) and sets the parameter.
\<close>

theorem empty_text_gives_empty_list:
  assumes "kind p \<in> {KStringList, KIntList, KBoolList, KFloatList, KDurationList}"
  shows "setFromString L p [] sep = (None, p\<lparr>valueP := VList [], setP := True\<rparr>)
       \<and> valueP (snd (setFromString L p [] sep)) \<noteq> VList [VString []]
       \<and> IsSet (snd (setFromString L p [] sep))"
  using assms
  by (auto simp: setFromString_def setFromString_defs IsSet_def)

theorem empty_text_gives_empty_list_witness:
  "kind (new_param KStringList) \<in> {KStringList, KIntList, KBoolList, KFloatList, KDurationList}
   \<and> valueP (snd (setFromString sample_lib (new_param KStringList) [] '','')) = VList []
   \<and> IsSet (snd (setFromString sample_lib (new_param KStringList) [] '',''))"
proof -
  have h: "kind (new_param KStringList) \<in> {KStringList, KIntList, KBoolList, KFloatList, KDurationList}"
    by (simp add: new_param_def)
  from empty_text_gives_empty_list [OF h, of sample_lib "'',''"] h
  show ?thesis by (simp add: IsSet_def)
qed

section \<open>C7: a malformed element of a list\<close>

lemma fill_stops:
  assumes "map conv pre = map Inr vals" and "conv bad = Inl e"
      and "i + length pre \<le> length vs"
  shows "fill conv vs i (pre @ bad # post)
         = (Some e, take i vs @ vals @ drop (i + length pre) vs)"
  using assms
proof (induction pre arbitrary: vals vs i)
  case Nil
  then show ?case by simp
next
  case (Cons x xs)
  from Cons.prems(1) obtain v rest where vals: "vals = v # rest" and v: "conv x = Inr v"
    and rest: "map conv xs = map Inr rest"
    by (cases vals) auto
  from Cons.prems have i: "i < length vs" by simp
  have "fill conv (vs[i := v]) (Suc i) (xs @ bad # post)
        = (Some e, take (Suc i) (vs[i := v]) @ rest @ drop (Suc i + length xs) (vs[i := v]))"
    using Cons.prems rest by (intro Cons.IH) auto
  moreover have "take (Suc i) (vs[i := v]) = take i vs @ [v]"
    using i by (simp add: take_Suc_conv_app_nth)
  moreover have "drop (Suc i + length xs) (vs[i := v]) = drop (Suc i + length xs) vs"
    by simp
  ultimately show ?case using v vals by simp
qed

lemma fill_on_fresh_slice:
  assumes "map conv pre = map Inr vals" and "conv bad = Inl e"
  shows "fill conv (replicate (length (pre @ bad # post)) z) 0 (pre @ bad # post)
         = (Some e, vals @ replicate (Suc (length post)) z)"
proof -
  have n: "length (pre @ bad # post) = length pre + Suc (length post)"
    by simp
  have d: "drop (length pre) (replicate (length pre + Suc (length post)) z)
           = replicate (Suc (length post)) z"
    by (simp only: drop_replicate add_diff_cancel_left')
  have "fill conv (replicate (length pre + Suc (length post)) z) 0 (pre @ bad # post)
        = (Some e, take 0 (replicate (length pre + Suc (length post)) z) @ vals
                   @ drop (0 + length pre) (replicate (length pre + Suc (length post)) z))"
    using assms by (intro fill_stops) simp_all
  then show ?thesis
    unfolding n using d by simp
qed

lemma map_Inr_transfer:
  "map f xs = map Inr vs \<Longrightarrow> (\<And>x v. f x = Inr v \<Longrightarrow> g x = Inr v) \<Longrightarrow> map g xs = map Inr vs"
  by (induction xs arbitrary: vs) auto

text \<open>
  C7. For the four list types whose elements are not strings: when the text is split (it
  is not empty; the empty text is never split) and the parts before \<open>bad\<close> parse while
  \<open>bad\<close> does not, \<^verbatim>\<open>setFromString\<close> returns the \<^verbatim>\<open>ParseError\<close> whose \<^verbatim>\<open>Value\<close> is the raw
  part \<open>bad\<close>, whose \<^verbatim>\<open>Expected\<close> is the element kind and whose \<^verbatim>\<open>Err\<close> is the parser's error.
  The parts after \<open>bad\<close> are not looked at: whatever they are, the slice left in the
  parameter holds the values parsed so far and the zero of \<^verbatim>\<open>make\<close> at the index of \<open>bad\<close>
  and at every later index.
\<close>

theorem malformed_list_element:
  assumes "kind p \<in> {KIntList, KBoolList, KFloatList, KDurationList}"
      and "s \<noteq> []"
      and "strings_Split L s sep = pre @ bad # post"
      and "map (element_parser L (kind p)) pre = map Inr vals"
      and "element_parser L (kind p) bad = Inl err"
  shows "setFromString L p s sep =
           (Some (ParseError (kP p) bad (element_name (kind p)) (Some err)),
            p\<lparr>valueP := VList (vals @ replicate (Suc (length post)) (element_zero L (kind p)))\<rparr>)"
proof -
  have gen: "filled p (fill conv (replicate (length (pre @ bad # post)) z) 0 (pre @ bad # post))
             = (Some e, p\<lparr>valueP := VList (vals @ replicate (Suc (length post)) z)\<rparr>)"
    if "map conv pre = map Inr vals" and "conv bad = Inl e"
    for conv :: "string \<Rightarrow> 'a cfg_error + 'a val" and z e
    using fill_on_fresh_slice [OF that, where z = z and post = post]
    by (simp add: filled_def)
  from assms(1) consider "kind p = KIntList" | "kind p = KBoolList" | "kind p = KFloatList"
    | "kind p = KDurationList" by auto
  then show ?thesis
  proof cases
    case 1
    let ?conv = "\<lambda>part. case strconv_Atoi L (strings_TrimSpace L part) of
                  Inl err \<Rightarrow> Inl (ParseError (kP p) part ''int'' (Some err))
                | Inr v \<Rightarrow> Inr (VInt v)"
    have a: "map ?conv pre = map Inr vals"
      using assms(4) by (rule map_Inr_transfer) (auto simp: 1 element_parser_def split: sum.splits)
    have b: "?conv bad = Inl (ParseError (kP p) bad ''int'' (Some err))"
      using assms(5) 1 by (auto simp: element_parser_def split: sum.splits)
    show ?thesis
      using gen [OF a b, of "VInt 0"] assms(2,3) 1
      by (simp add: setFromString_def IntListParam_setFromString_def element_name_def
          element_zero_def)
  next
    case 2
    let ?conv = "\<lambda>part. case strconv_ParseBool L (strings_TrimSpace L part) of
                  Inl err \<Rightarrow> Inl (ParseError (kP p) part ''bool'' (Some err))
                | Inr v \<Rightarrow> Inr (VBool v)"
    have a: "map ?conv pre = map Inr vals"
      using assms(4) by (rule map_Inr_transfer) (auto simp: 2 element_parser_def split: sum.splits)
    have b: "?conv bad = Inl (ParseError (kP p) bad ''bool'' (Some err))"
      using assms(5) 2 by (auto simp: element_parser_def split: sum.splits)
    show ?thesis
      using gen [OF a b, of "VBool False"] assms(2,3) 2
      by (simp add: setFromString_def BoolListParam_setFromString_def element_name_def
          element_zero_def)
  next
    case 3
    let ?conv = "\<lambda>part. case strconv_ParseFloat L (strings_TrimSpace L part) of
                  Inl err \<Rightarrow> Inl (ParseError (kP p) part ''float64'' (Some err))
                | Inr v \<Rightarrow> Inr (VFloat v)"
    have a: "map ?conv pre = map Inr vals"
      using assms(4) by (rule map_Inr_transfer) (auto simp: 3 element_parser_def split: sum.splits)
    have b: "?conv bad = Inl (ParseError (kP p) bad ''float64'' (Some err))"
      using assms(5) 3 by (auto simp: element_parser_def split: sum.splits)
    show ?thesis
      using gen [OF a b, of "VFloat (float64_of_int L 0)"] assms(2,3) 3
      by (simp add: setFromString_def FloatListParam_setFromString_def element_name_def
          element_zero_def)
  next
    case 4
    let ?conv = "\<lambda>part. case time_ParseDuration L (strings_TrimSpace L part) of
                  Inl err \<Rightarrow> Inl (ParseError (kP p) part ''duration'' (Some err))
                | Inr v \<Rightarrow> Inr (VDuration v)"
    have a: "map ?conv pre = map Inr vals"
      using assms(4) by (rule map_Inr_transfer) (auto simp: 4 element_parser_def split: sum.splits)
    have b: "?conv bad = Inl (ParseError (kP p) bad ''duration'' (Some err))"
      using assms(5) 4 by (auto simp: element_parser_def split: sum.splits)
    show ?thesis
      using gen [OF a b, of "VDuration 0"] assms(2,3) 4
      by (simp add: setFromString_def DurationListParam_setFromString_def element_name_def
          element_zero_def)
  qed
qed

text \<open>The text \<^verbatim>\<open>1,x,3\<close> for an integer list: the error names \<^verbatim>\<open>x\<close>, and \<^verbatim>\<open>3\<close> is not stored.\<close>

theorem malformed_list_element_witness:
  "kind (new_param KIntList) \<in> {KIntList, KBoolList, KFloatList, KDurationList}
   \<and> ''1,x,3'' \<noteq> []
   \<and> strings_Split sample_lib ''1,x,3'' '','' = [''1''] @ ''x'' # [''3'']
   \<and> map (element_parser sample_lib (kind (new_param KIntList))) [''1''] = map Inr [VInt 1]
   \<and> element_parser sample_lib (kind (new_param KIntList)) ''x'' = Inl ''invalid syntax''
   \<and> setFromString sample_lib (new_param KIntList) ''1,x,3'' '','' =
        (Some (ParseError [] ''x'' ''int'' (Some ''invalid syntax'')),
         (new_param KIntList)\<lparr>valueP := VList [VInt 1, VInt 0, VInt 0]\<rparr>)"
proof -
  have h1: "kind (new_param KIntList) \<in> {KIntList, KBoolList, KFloatList, KDurationList}"
    by (simp add: new_param_def)
  have h2: "''1,x,3'' \<noteq> []" by simp
  have h3: "strings_Split sample_lib ''1,x,3'' '','' = [''1''] @ ''x'' # [''3'']"
    by code_simp
  have h4: "map (element_parser sample_lib (kind (new_param KIntList))) [''1''] = map Inr [VInt 1]"
    by code_simp
  have h5: "element_parser sample_lib (kind (new_param KIntList)) ''x'' = Inl ''invalid syntax''"
    by code_simp
  have k: "kP (new_param KIntList) = []" "kind (new_param KIntList) = KIntList"
    by (simp_all add: new_param_def)
  from malformed_list_element [OF h1 h2 h3 h4 h5] h1 h2 h3 h4 h5
  show ?thesis
    by (simp add: k element_name_def element_zero_def)
qed

section \<open>Resolution of one parameter (loadParam)\<close>

lemma filled_error_in:
  "fst (filled p (fill conv vs i xs)) = Some e \<Longrightarrow> \<exists>x\<in>set xs. conv x = Inl e"
  using fill_error [of conv vs i xs e "snd (fill conv vs i xs)"] filled_error_setP [of p "fill conv vs i xs" e]
  by (cases "fill conv vs i xs") auto

lemma setFromString_error_ParseError:
  "fst (setFromString L p s sep) = Some e \<Longrightarrow> \<exists>raw expected cause. e = ParseError (kP p) raw expected cause"
  unfolding setFromString_def
  by (cases "kind p")
     (auto simp: setFromString_defs Let_def split: sum.splits if_splits dest!: filled_error_in)

lemma setFromAny_error_ParseError:
  "fst (setFromAny L p v sep) = Some e \<Longrightarrow> \<exists>raw expected cause. e = ParseError (kP p) raw expected cause"
  unfolding setFromAny_def
  by (cases "kind p"; cases v)
     (auto simp: setFromAny_defs setFromString_defs Let_def
        split: sum.splits if_splits any.splits dest!: filled_error_in)

lemma setFrom_cases:
  "(\<exists>s. v = AString s \<and> setFrom L p v sep = setFromString L p s sep)
   \<or> setFrom L p v sep = setFromAny L p v sep"
  by (cases v) (simp_all add: setFrom_def)

lemma setFrom_error:
  assumes "fst (setFrom L p v sep) = Some e"
  shows "\<exists>raw expected cause. e = ParseError (kP p) raw expected cause"
    and "setP (snd (setFrom L p v sep)) = setP p"
proof -
  from setFrom_cases [of v L p sep]
  have "(\<exists>raw expected cause. e = ParseError (kP p) raw expected cause)
        \<and> setP (snd (setFrom L p v sep)) = setP p"
  proof
    assume "\<exists>s. v = AString s \<and> setFrom L p v sep = setFromString L p s sep"
    then obtain s where s: "setFrom L p v sep = setFromString L p s sep" by blast
    with assms have "fst (setFromString L p s sep) = Some e" by simp
    from setFromString_error_ParseError [OF this] setFromString_error_setP [OF this] s
    show ?thesis by simp
  next
    assume a: "setFrom L p v sep = setFromAny L p v sep"
    with assms have "fst (setFromAny L p v sep) = Some e" by simp
    from setFromAny_error_ParseError [OF this] setFromAny_error_setP [OF this] a
    show ?thesis by simp
  qed
  then show "\<exists>raw expected cause. e = ParseError (kP p) raw expected cause"
    and "setP (snd (setFrom L p v sep)) = setP p" by blast+
qed

lemma filled_fields:
  "kP (snd (filled p r)) = kP p \<and> hasDefVal (snd (filled p r)) = hasDefVal p
   \<and> required (snd (filled p r)) = required p \<and> validators (snd (filled p r)) = validators p
   \<and> kind (snd (filled p r)) = kind p"
  by (auto simp: filled_def split: option.splits)

lemma setFromString_fields:
  "kP (snd (setFromString L p s sep)) = kP p
   \<and> hasDefVal (snd (setFromString L p s sep)) = hasDefVal p
   \<and> required (snd (setFromString L p s sep)) = required p
   \<and> validators (snd (setFromString L p s sep)) = validators p
   \<and> kind (snd (setFromString L p s sep)) = kind p"
  unfolding setFromString_def
  by (cases "kind p") (simp_all add: setFromString_defs Let_def filled_fields split: sum.splits)

lemma setFromAny_fields:
  "kP (snd (setFromAny L p v sep)) = kP p
   \<and> hasDefVal (snd (setFromAny L p v sep)) = hasDefVal p
   \<and> required (snd (setFromAny L p v sep)) = required p
   \<and> validators (snd (setFromAny L p v sep)) = validators p
   \<and> kind (snd (setFromAny L p v sep)) = kind p"
  unfolding setFromAny_def
  by (cases "kind p"; cases v)
     (simp_all add: setFromAny_defs setFromString_defs Let_def filled_fields split: sum.splits)

lemma setFrom_fields:
  "kP (snd (setFrom L p v sep)) = kP p
   \<and> hasDefVal (snd (setFrom L p v sep)) = hasDefVal p
   \<and> required (snd (setFrom L p v sep)) = required p
   \<and> validators (snd (setFrom L p v sep)) = validators p
   \<and> kind (snd (setFrom L p v sep)) = kind p"
  using setFrom_cases [of v L p sep] setFromString_fields [of L p _ sep]
    setFromAny_fields [of L p v sep]
  by auto

lemma validate_loop_error:
  "validate_loop vs p = Some e \<Longrightarrow> \<exists>m. e = ValidationError (kP p) (valueP p) m"
  by (induction vs) (auto split: option.splits)

lemma validate_error:
  "validate p = Some e \<Longrightarrow> \<exists>m. e = ValidationError (kP p) (valueP p) m"
  unfolding validate_def by (rule validate_loop_error)

lemma loadParam_coercion_error:
  assumes "\<not> is_nil (scan sources (key p))"
      and "fst (setFrom L p (scan sources (key p)) (ListSeparator opts)) = Some e"
  shows "loadParam L p sources opts loadErr
           = (snd (setFrom L p (scan sources (key p)) (ListSeparator opts)), loadErr @ [e])
       \<and> (\<exists>raw expected cause. e = ParseError (key p) raw expected cause)"
  using assms setFrom_error(1) [OF assms(2)]
  by (simp add: loadParam_def Let_def key_def)

section \<open>C4: a value that does not parse\<close>

text \<open>
  C4. When a source supplies a value for the parameter's key (the scan finds one that
  is not nil) and its coercion fails, \<^verbatim>\<open>loadParam\<close> adds exactly that one error, a
  \<^verbatim>\<open>ParseError\<close> for the parameter's key, and returns: nothing else is added, so no
  \<^verbatim>\<open>ValidationError\<close> (the validators are not run) and no \<^verbatim>\<open>RequiredError\<close>, whatever the
  validators, the required flag and the default are.
\<close>

theorem parse_failure_stops:
  assumes "\<not> is_nil (scan sources (key p))"
      and "fst (setFrom L p (scan sources (key p)) (ListSeparator opts)) = Some e"
  shows "loadParam L p sources opts loadErr
           = (snd (setFrom L p (scan sources (key p)) (ListSeparator opts)), loadErr @ [e])
       \<and> (\<exists>raw expected cause. e = ParseError (key p) raw expected cause)"
  using assms setFrom_error(1) [OF assms(2)]
  by (simp add: loadParam_def Let_def key_def)


text \<open>
  A required duration without default, whose only validator rejects everything, given
  \<^verbatim>\<open>--timeout not-a-duration\<close>: the one error is the \<^verbatim>\<open>ParseError\<close>.
\<close>

theorem parse_failure_stops_witness:
  "\<not> is_nil (scan (Load_sources sample_lib sample_world
                    (no_options\<lparr>Args := [''--timeout'', ''not-a-duration'']\<rparr>) Map.empty)
              (key required_timeout))
   \<and> isRequired required_timeout \<and> \<not> hasDefault required_timeout
   \<and> validate required_timeout \<noteq> None
   \<and> snd (loadParam sample_lib required_timeout
           (Load_sources sample_lib sample_world
              (no_options\<lparr>Args := [''--timeout'', ''not-a-duration'']\<rparr>) Map.empty)
           (no_options\<lparr>ListSeparator := '',''\<rparr>) [])
       = [ParseError ''timeout'' ''not-a-duration'' ''duration'' (Some ''invalid duration'')]"
proof -
  let ?srcs = "Load_sources sample_lib sample_world
                 (no_options\<lparr>Args := [''--timeout'', ''not-a-duration'']\<rparr>) Map.empty"
  let ?opts = "no_options\<lparr>ListSeparator := '',''\<rparr>"
  have h1: "\<not> is_nil (scan ?srcs (key required_timeout))"
    by code_simp
  have h2: "fst (setFrom sample_lib required_timeout (scan ?srcs (key required_timeout))
                 (ListSeparator ?opts))
            = Some (ParseError ''timeout'' ''not-a-duration'' ''duration'' (Some ''invalid duration''))"
    by code_simp
  have h3: "isRequired required_timeout \<and> \<not> hasDefault required_timeout
            \<and> validate required_timeout \<noteq> None"
    by code_simp
  have r: "snd (loadParam sample_lib required_timeout ?srcs ?opts [])
           = [] @ [ParseError ''timeout'' ''not-a-duration'' ''duration'' (Some ''invalid duration'')]"
    using parse_failure_stops [OF h1 h2, of "[]", THEN conjunct1] by (simp only: snd_conv)
  from r h1 h3 show ?thesis by (simp only: append_Nil simp_thms)
qed

section \<open>C5: the required check\<close>

text \<open>
  C5 as stated fails: a required parameter without default and without a value from any
  source gets its \<^verbatim>\<open>RequiredError\<close>, but \<^verbatim>\<open>loadParam\<close> has run the validators on the unset
  value first, so a validator that rejects the zero value adds a \<^verbatim>\<open>ValidationError\<close> for
  the same key. \<^verbatim>\<open>Load\<close> of a struct whose field \<^verbatim>\<open>name\<close> is
  \<^verbatim>\<open>String().Required().Validate(NotEmpty()).Build()\<close>, with no arguments, no environment
  variable and no file, returns two errors for \<^verbatim>\<open>name\<close>.
\<close>

theorem required_and_validation_both_reported:
  "map_option fst (Load sample_lib sample_world name_loader
                     (\<lambda>a. Required (Validate NotEmpty (new_param KString))))
   = Some (LoadError [ValidationError ''name'' (VString [])
                        ''validation error: string must not be empty'',
                      RequiredError ''name''])"
  by code_simp


text \<open>
  C5, amended. For a required parameter without default, not set before the load, for
  which no source supplies a value, \<^verbatim>\<open>loadParam\<close> adds exactly one \<^verbatim>\<open>RequiredError\<close> for its
  key, as the last error, and never a \<^verbatim>\<open>ParseError\<close>; before it comes one
  \<^verbatim>\<open>ValidationError\<close> for the same key exactly when a validator rejects the unset value.
  For a parameter with a default no \<^verbatim>\<open>RequiredError\<close> is ever added, whatever the sources
  supply.
\<close>

theorem required_check:
  "(is_nil (scan sources (key p)) \<and> isRequired p \<and> \<not> hasDefault p \<and> \<not> IsSet p \<longrightarrow>
      snd (loadParam L p sources opts loadErr)
        = loadErr @ (case validate p of None \<Rightarrow> [] | Some err \<Rightarrow> [err]) @ [RequiredError (key p)]
      \<and> (\<forall>err. validate p = Some err \<longrightarrow> (\<exists>m. err = ValidationError (key p) (valueP p) m)))
   \<and> (hasDefault p \<longrightarrow> (\<forall>k. RequiredError k \<notin> set (snd (loadParam L p sources opts []))))"
proof (intro conjI impI allI)
  assume a: "is_nil (scan sources (key p)) \<and> isRequired p \<and> \<not> hasDefault p \<and> \<not> IsSet p"
  then show "snd (loadParam L p sources opts loadErr)
        = loadErr @ (case validate p of None \<Rightarrow> [] | Some err \<Rightarrow> [err]) @ [RequiredError (key p)]"
    by (simp add: loadParam_def Let_def split: option.splits)
next
  fix err assume "validate p = Some err"
  from validate_error [OF this] show "\<exists>m. err = ValidationError (key p) (valueP p) m"
    by (simp add: key_def)
next
  fix k assume d: "hasDefault p"
  let ?r = "if \<not> is_nil (scan sources (key p))
            then setFrom L p (scan sources (key p)) (ListSeparator opts) else (None, p)"
  have hd: "hasDefault (snd ?r)"
    using d setFrom_fields [of L p "scan sources (key p)" "ListSeparator opts"]
    by (simp add: hasDefault_def)
  show "RequiredError k \<notin> set (snd (loadParam L p sources opts []))"
  proof (cases "fst ?r")
    case None
    then have "snd (loadParam L p sources opts [])
               = (case validate (snd ?r) of Some err \<Rightarrow> [err] | None \<Rightarrow> [])"
      using hd by (simp add: loadParam_def Let_def split: option.splits)
    then show ?thesis
      using validate_error [of "snd ?r"] by (auto split: option.splits)
  next
    case (Some e)
    then have ne: "\<not> is_nil (scan sources (key p))" by (auto split: if_splits)
    with Some have "fst (setFrom L p (scan sources (key p)) (ListSeparator opts)) = Some e"
      by simp
    from loadParam_coercion_error [OF ne this, of "[]"] show ?thesis
      by auto
  qed
qed


theorem required_check_witness:
  "is_nil (scan (Load_sources sample_lib sample_world no_options Map.empty) (key required_name))
   \<and> isRequired required_name \<and> \<not> hasDefault required_name \<and> \<not> IsSet required_name
   \<and> snd (loadParam sample_lib required_name
            (Load_sources sample_lib sample_world no_options Map.empty) no_options [])
       = [RequiredError ''name'']
   \<and> hasDefault defaulted_name \<and> isRequired defaulted_name
   \<and> (\<forall>k. RequiredError k \<notin> set (snd (loadParam sample_lib defaulted_name
            (Load_sources sample_lib sample_world no_options Map.empty) no_options [])))"
proof -
  let ?srcs = "Load_sources sample_lib sample_world no_options Map.empty"
  have h1: "is_nil (scan ?srcs (key required_name)) \<and> isRequired required_name
            \<and> \<not> hasDefault required_name \<and> \<not> IsSet required_name"
    by code_simp
  have v: "validate required_name = None" "key required_name = ''name''"
    by code_simp+
  have h2: "hasDefault defaulted_name \<and> isRequired defaulted_name"
    by code_simp
  from required_check [of ?srcs required_name sample_lib no_options "[]"] h1 v
  have a: "snd (loadParam sample_lib required_name ?srcs no_options []) = [RequiredError ''name'']"
    by simp
  from required_check [of ?srcs defaulted_name sample_lib no_options "[]"] h2
  have b: "\<forall>k. RequiredError k \<notin> set (snd (loadParam sample_lib defaulted_name ?srcs no_options []))"
    by blast
  from a b h1 h2 show ?thesis by blast
qed

section \<open>What a coercion stores\<close>

text \<open>
  Each of the twenty methods of \<^verbatim>\<open>types.go\<close> against the value-only description: a call
  succeeds exactly when the description yields a value, and then it stores that value
  and sets the parameter.
\<close>

lemma fill_those_Some:
  assumes "\<And>x. option_of (conv x) = opt x"
  shows "i + length xs = length vs \<Longrightarrow> those (map opt xs) = Some ys \<Longrightarrow>
         fill conv vs i xs = (None, take i vs @ ys)"
proof (induction xs arbitrary: vs i ys)
  case Nil
  then show ?case by simp
next
  case (Cons x xs)
  from Cons.prems(2) obtain v rest where v: "opt x = Some v" and rest: "those (map opt xs) = Some rest"
    and ys: "ys = v # rest"
    by (auto split: option.splits)
  from v assms [of x] have c: "conv x = Inr v"
    by (cases "conv x") (simp_all add: option_of_def)
  from Cons.prems(1) have i: "i < length vs" by simp
  have "fill conv (vs[i := v]) (Suc i) xs = (None, take (Suc i) (vs[i := v]) @ rest)"
    using Cons.prems(1) rest by (intro Cons.IH) simp_all
  moreover have "take (Suc i) (vs[i := v]) = take i vs @ [v]"
    using i by (simp add: take_Suc_conv_app_nth)
  ultimately show ?case using c ys by simp
qed

lemma fill_those_None:
  assumes "\<And>x. option_of (conv x) = opt x"
  shows "those (map opt xs) = None \<Longrightarrow> fst (fill conv vs i xs) \<noteq> None"
proof (induction xs arbitrary: vs i)
  case Nil
  then show ?case by simp
next
  case (Cons x xs)
  show ?case
  proof (cases "conv x")
    case (Inl e)
    then show ?thesis by simp
  next
    case (Inr v)
    with assms [of x] have "opt x = Some v" by (simp add: option_of_def)
    with Cons.prems have "those (map opt xs) = None" by (simp split: option.splits)
    from Cons.IH [OF this] Inr show ?thesis by simp
  qed
qed

lemma filled_fresh:
  assumes "\<And>x. option_of (conv x) = opt x"
  shows "those (map opt xs) = Some ys \<Longrightarrow>
           filled p (fill conv (replicate (length xs) z) 0 xs)
             = (None, p\<lparr>valueP := VList ys, setP := True\<rparr>)"
    and "those (map opt xs) = None \<Longrightarrow>
           fst (filled p (fill conv (replicate (length xs) z) 0 xs)) \<noteq> None"
proof -
  show "filled p (fill conv (replicate (length xs) z) 0 xs)
             = (None, p\<lparr>valueP := VList ys, setP := True\<rparr>)"
    if "those (map opt xs) = Some ys"
    using fill_those_Some [OF assms _ that, of 0 "replicate (length xs) z"]
    by (simp add: filled_def)
  show "fst (filled p (fill conv (replicate (length xs) z) 0 xs)) \<noteq> None"
    if "those (map opt xs) = None"
    using fill_those_None [OF assms that, of "replicate (length xs) z" 0]
    by (auto simp: filled_def split: option.splits)
qed

lemma those_map_Some: "those (map (\<lambda>x. Some (f x)) xs) = Some (map f xs)"
  by (induction xs) simp_all


lemma list_fromText:
  assumes conv: "\<And>part. option_of (conv part) = option_of (element_parser L kd part)"
      and kd: "kd \<in> {KIntList, KBoolList, KFloatList, KDurationList}"
  shows "fromText L kd s sep = Some x \<Longrightarrow>
           (if s = [] then (None, p\<lparr>valueP := VList [], setP := True\<rparr>)
            else (let parts = strings_Split L s sep
                  in filled p (fill conv (replicate (length parts) z) 0 parts)))
           = (None, p\<lparr>valueP := x, setP := True\<rparr>)"
    and "fromText L kd s sep = None \<Longrightarrow>
           fst (if s = [] then (None, p\<lparr>valueP := VList [], setP := True\<rparr>)
                else (let parts = strings_Split L s sep
                      in filled p (fill conv (replicate (length parts) z) 0 parts)))
           \<noteq> None"
proof -
  let ?opt = "\<lambda>part. option_of (element_parser L kd part)"
  have ft: "fromText L kd s sep
            = (if s = [] then Some (VList [])
               else map_option VList (those (map ?opt (strings_Split L s sep))))"
    using kd by (auto simp: fromText_def)
  show "(if s = [] then (None, p\<lparr>valueP := VList [], setP := True\<rparr>)
            else (let parts = strings_Split L s sep
                  in filled p (fill conv (replicate (length parts) z) 0 parts)))
           = (None, p\<lparr>valueP := x, setP := True\<rparr>)"
    if "fromText L kd s sep = Some x"
  proof (cases "s = []")
    case True
    with that ft show ?thesis by simp
  next
    case False
    with that ft obtain ys where ys: "those (map ?opt (strings_Split L s sep)) = Some ys"
      and x: "x = VList ys" by auto
    from filled_fresh(1) [of conv ?opt, OF conv ys] False x show ?thesis
      by (simp add: Let_def)
  qed
  show "fst (if s = [] then (None, p\<lparr>valueP := VList [], setP := True\<rparr>)
                else (let parts = strings_Split L s sep
                      in filled p (fill conv (replicate (length parts) z) 0 parts)))
           \<noteq> None"
    if "fromText L kd s sep = None"
  proof (cases "s = []")
    case True
    with that ft show ?thesis by simp
  next
    case False
    with that ft have "those (map ?opt (strings_Split L s sep)) = None" by simp
    from filled_fresh(2) [of conv ?opt, OF conv this] False show ?thesis
      by (simp add: Let_def)
  qed
qed

lemma setFromString_fromText:
  "fromText L (kind p) s sep = Some x \<Longrightarrow>
     setFromString L p s sep = (None, p\<lparr>valueP := x, setP := True\<rparr>)"
  "fromText L (kind p) s sep = None \<Longrightarrow> fst (setFromString L p s sep) \<noteq> None"
proof -
  have both: "(fromText L (kind p) s sep = Some x \<longrightarrow>
               setFromString L p s sep = (None, p\<lparr>valueP := x, setP := True\<rparr>))
            \<and> (fromText L (kind p) s sep = None \<longrightarrow> fst (setFromString L p s sep) \<noteq> None)"
  proof (cases "kind p")
    case KString
    then show ?thesis
      by (auto simp: fromText_def setFromString_def StringParam_setFromString_def)
  next
    case KInt
    then show ?thesis
      by (auto simp: fromText_def setFromString_def IntParam_setFromString_def option_of_def
          split: sum.splits)
  next
    case KBool
    then show ?thesis
      by (auto simp: fromText_def setFromString_def BoolParam_setFromString_def option_of_def
          split: sum.splits)
  next
    case KFloat
    then show ?thesis
      by (auto simp: fromText_def setFromString_def FloatParam_setFromString_def option_of_def
          split: sum.splits)
  next
    case KDuration
    then show ?thesis
      by (auto simp: fromText_def setFromString_def DurationParam_setFromString_def option_of_def
          split: sum.splits)
  next
    case KStringList
    then show ?thesis
      by (auto simp: fromText_def setFromString_def StringListParam_setFromString_def)
  next
    case KIntList
    have c: "option_of (case strconv_Atoi L (strings_TrimSpace L part) of
                  Inl err \<Rightarrow> Inl (ParseError (kP p) part ''int'' (Some err))
                | Inr v \<Rightarrow> Inr (VInt v)) = option_of (element_parser L KIntList part)" for part
      by (simp add: element_parser_def option_of_def split: sum.splits)
    from list_fromText [of _ L KIntList, OF c] KIntList show ?thesis
      by (simp add: setFromString_def IntListParam_setFromString_def)
  next
    case KBoolList
    have c: "option_of (case strconv_ParseBool L (strings_TrimSpace L part) of
                  Inl err \<Rightarrow> Inl (ParseError (kP p) part ''bool'' (Some err))
                | Inr v \<Rightarrow> Inr (VBool v)) = option_of (element_parser L KBoolList part)" for part
      by (simp add: element_parser_def option_of_def split: sum.splits)
    from list_fromText [of _ L KBoolList, OF c] KBoolList show ?thesis
      by (simp add: setFromString_def BoolListParam_setFromString_def)
  next
    case KFloatList
    have c: "option_of (case strconv_ParseFloat L (strings_TrimSpace L part) of
                  Inl err \<Rightarrow> Inl (ParseError (kP p) part ''float64'' (Some err))
                | Inr v \<Rightarrow> Inr (VFloat v)) = option_of (element_parser L KFloatList part)" for part
      by (simp add: element_parser_def option_of_def split: sum.splits)
    from list_fromText [of _ L KFloatList, OF c] KFloatList show ?thesis
      by (simp add: setFromString_def FloatListParam_setFromString_def)
  next
    case KDurationList
    have c: "option_of (case time_ParseDuration L (strings_TrimSpace L part) of
                  Inl err \<Rightarrow> Inl (ParseError (kP p) part ''duration'' (Some err))
                | Inr v \<Rightarrow> Inr (VDuration v)) = option_of (element_parser L KDurationList part)" for part
      by (simp add: element_parser_def option_of_def split: sum.splits)
    from list_fromText [of _ L KDurationList, OF c] KDurationList show ?thesis
      by (simp add: setFromString_def DurationListParam_setFromString_def)
  qed
  from both show "fromText L (kind p) s sep = Some x \<Longrightarrow>
     setFromString L p s sep = (None, p\<lparr>valueP := x, setP := True\<rparr>)"
    and "fromText L (kind p) s sep = None \<Longrightarrow> fst (setFromString L p s sep) \<noteq> None"
    by blast+
qed


lemma setFromAny_AString: "setFromAny L p (AString s) sep = setFromString L p s sep"
  by (cases "kind p") (simp_all add: setFromAny_def setFromString_def setFromAny_defs setFromString_defs)

lemma fromStructured_AString: "fromStructured L kd (AString s) sep = fromText L kd s sep"
  by (cases kd) (simp_all add: fromStructured_def fromText_def)

lemma setFrom_is_setFromAny: "setFrom L p v sep = setFromAny L p v sep"
  by (cases v) (simp_all add: setFrom_def setFromAny_AString)

lemma coerced_is_fromStructured: "coerced L kd v sep = fromStructured L kd v sep"
  by (cases v) (simp_all add: coerced_def fromStructured_AString)

lemma setFromAny_fromStructured_both:
  "(fromStructured L (kind p) v sep = Some x \<longrightarrow>
      setFromAny L p v sep = (None, p\<lparr>valueP := x, setP := True\<rparr>))
   \<and> (fromStructured L (kind p) v sep = None \<longrightarrow> fst (setFromAny L p v sep) \<noteq> None)"
proof (cases "\<exists>s. v = AString s")
  case True
  then obtain s where "v = AString s" by blast
  then show ?thesis
    using setFromString_fromText(1) [of L p s sep x] setFromString_fromText(2) [of L p s sep]
    by (simp add: setFromAny_AString fromStructured_AString)
next
  case False
  then have notstr: "\<And>s. v \<noteq> AString s" by blast
  show ?thesis
  proof (cases "kind p")
    case KString
    then show ?thesis using notstr
      by (cases v) (auto simp add: setFromAny_def StringParam_setFromAny_def fromStructured_def)
  next
    case KInt
    then show ?thesis using notstr
      by (cases v) (auto simp: setFromAny_def IntParam_setFromAny_def fromStructured_def)
  next
    case KBool
    then show ?thesis using notstr
      by (cases v) (auto simp: setFromAny_def BoolParam_setFromAny_def fromStructured_def)
  next
    case KFloat
    then show ?thesis using notstr
      by (cases v) (auto simp: setFromAny_def FloatParam_setFromAny_def fromStructured_def)
  next
    case KDuration
    then show ?thesis using notstr
      by (cases v) (auto simp: setFromAny_def DurationParam_setFromAny_def fromStructured_def)
  next
    case KStringList
    have e: "element_of_any L KStringList = (\<lambda>item. Some (VString (fmt_Sprint L item)))"
      by (rule ext) (simp add: element_of_any_def)
    show ?thesis using KStringList notstr
      by (cases v)
         (auto simp add: setFromAny_def StringListParam_setFromAny_def fromStructured_def e
            those_map_Some)
  next
    case KIntList
    let ?conv = "\<lambda>item. case item of
                   AInt n \<Rightarrow> Inr (VInt n)
                 | AInt64 n \<Rightarrow> Inr (VInt n)
                 | AFloat64 n \<Rightarrow> Inr (VInt (int_of_float64 L n))
                 | _ \<Rightarrow> Inl (ParseError (kP p) (fmt_Sprint L item) ''int'' None)"
    have c: "option_of (?conv item) = element_of_any L KIntList item" for item
      by (cases item) (simp_all add: element_of_any_def option_of_def split: sum.splits)
    note ff = filled_fresh [of ?conv "element_of_any L KIntList", OF c]
    show ?thesis
    proof (cases v)
      case (ASlice items)
      show ?thesis
      proof (cases "those (map (element_of_any L KIntList) items)")
        case None
        from ff(2) [OF None] show ?thesis
          using KIntList ASlice None
          by (simp add: setFromAny_def IntListParam_setFromAny_def fromStructured_def)
      next
        case (Some ys)
        from ff(1) [OF Some] show ?thesis
          using KIntList ASlice Some
          by (simp add: setFromAny_def IntListParam_setFromAny_def fromStructured_def)
      qed
    qed (use KIntList notstr in \<open>auto simp add: setFromAny_def IntListParam_setFromAny_def fromStructured_def\<close>)
  next
    case KBoolList
    let ?conv = "\<lambda>item. case item of
                   ABool b \<Rightarrow> Inr (VBool b)
                 | _ \<Rightarrow> Inl (ParseError (kP p) (fmt_Sprint L item) ''bool'' None)"
    have c: "option_of (?conv item) = element_of_any L KBoolList item" for item
      by (cases item) (simp_all add: element_of_any_def option_of_def split: sum.splits)
    note ff = filled_fresh [of ?conv "element_of_any L KBoolList", OF c]
    show ?thesis
    proof (cases v)
      case (ASlice items)
      show ?thesis
      proof (cases "those (map (element_of_any L KBoolList) items)")
        case None
        from ff(2) [OF None] show ?thesis
          using KBoolList ASlice None
          by (simp add: setFromAny_def BoolListParam_setFromAny_def fromStructured_def)
      next
        case (Some ys)
        from ff(1) [OF Some] show ?thesis
          using KBoolList ASlice Some
          by (simp add: setFromAny_def BoolListParam_setFromAny_def fromStructured_def)
      qed
    qed (use KBoolList notstr in \<open>auto simp add: setFromAny_def BoolListParam_setFromAny_def fromStructured_def\<close>)
  next
    case KFloatList
    let ?conv = "\<lambda>item. case item of
                   AFloat64 n \<Rightarrow> Inr (VFloat n)
                 | AFloat32 n \<Rightarrow> Inr (VFloat n)
                 | AInt n \<Rightarrow> Inr (VFloat (float64_of_int L n))
                 | AInt64 n \<Rightarrow> Inr (VFloat (float64_of_int L n))
                 | _ \<Rightarrow> Inl (ParseError (kP p) (fmt_Sprint L item) ''float64'' None)"
    have c: "option_of (?conv item) = element_of_any L KFloatList item" for item
      by (cases item) (simp_all add: element_of_any_def option_of_def split: sum.splits)
    note ff = filled_fresh [of ?conv "element_of_any L KFloatList", OF c]
    show ?thesis
    proof (cases v)
      case (ASlice items)
      show ?thesis
      proof (cases "those (map (element_of_any L KFloatList) items)")
        case None
        from ff(2) [OF None] show ?thesis
          using KFloatList ASlice None
          by (simp add: setFromAny_def FloatListParam_setFromAny_def fromStructured_def)
      next
        case (Some ys)
        from ff(1) [OF Some] show ?thesis
          using KFloatList ASlice Some
          by (simp add: setFromAny_def FloatListParam_setFromAny_def fromStructured_def)
      qed
    qed (use KFloatList notstr in \<open>auto simp add: setFromAny_def FloatListParam_setFromAny_def fromStructured_def\<close>)
  next
    case KDurationList
    let ?conv = "\<lambda>item. case item of
                   AString d \<Rightarrow>
                     (case time_ParseDuration L d of
                        Inl err \<Rightarrow> Inl (ParseError (kP p) d ''duration'' (Some err))
                      | Inr parsed \<Rightarrow> Inr (VDuration parsed))
                 | AInt d \<Rightarrow> Inr (VDuration d)
                 | AInt64 d \<Rightarrow> Inr (VDuration d)
                 | AFloat64 d \<Rightarrow> Inr (VDuration (int_of_float64 L d))
                 | _ \<Rightarrow> Inl (ParseError (kP p) (fmt_Sprint L item) ''duration'' None)"
    have c: "option_of (?conv item) = element_of_any L KDurationList item" for item
      by (cases item) (simp_all add: element_of_any_def option_of_def split: sum.splits)
    note ff = filled_fresh [of ?conv "element_of_any L KDurationList", OF c]
    show ?thesis
    proof (cases v)
      case (ASlice items)
      show ?thesis
      proof (cases "those (map (element_of_any L KDurationList) items)")
        case None
        from ff(2) [OF None] show ?thesis
          using KDurationList ASlice None
          by (simp add: setFromAny_def DurationListParam_setFromAny_def fromStructured_def)
      next
        case (Some ys)
        from ff(1) [OF Some] show ?thesis
          using KDurationList ASlice Some
          by (simp add: setFromAny_def DurationListParam_setFromAny_def fromStructured_def)
      qed
    qed (use KDurationList notstr in \<open>auto simp add: setFromAny_def DurationListParam_setFromAny_def fromStructured_def\<close>)
  qed
qed

lemma setFrom_coerced:
  "coerced L (kind p) v sep = Some x \<Longrightarrow>
     setFrom L p v sep = (None, p\<lparr>valueP := x, setP := True\<rparr>)"
  "coerced L (kind p) v sep = None \<Longrightarrow> fst (setFrom L p v sep) \<noteq> None"
  using setFromAny_fromStructured_both [of L p v sep x]
  by (simp_all add: setFrom_is_setFromAny coerced_is_fromStructured)

section \<open>C1: the priority of the sources\<close>

lemma fst_loadParam:
  "fst (loadParam L p srcs opts errs)
   = (if \<not> is_nil (scan srcs (key p)) then snd (setFrom L p (scan srcs (key p)) (ListSeparator opts))
      else p)"
  by (simp add: loadParam_def Let_def split: option.splits)

lemma load_loop_other:
  "a \<notin> set params \<Longrightarrow> snd (load_loop L params srcs opts errs h) a = h a"
  by (induction params arbitrary: errs h) (auto simp: Let_def)

lemma load_loop_at:
  "distinct params \<Longrightarrow> a \<in> set params \<Longrightarrow>
   snd (load_loop L params srcs opts errs h) a = fst (loadParam L (h a) srcs opts [])"
proof (induction params arbitrary: errs h)
  case Nil
  then show ?case by simp
next
  case (Cons b bs)
  show ?case
  proof (cases "a = b")
    case True
    with Cons.prems have "a \<notin> set bs" by simp
    then show ?thesis
      using True by (simp add: Let_def load_loop_other fst_loadParam)
  next
    case False
    with Cons.prems have "distinct bs" "a \<in> set bs" by simp_all
    from Cons.IH [OF this] False show ?thesis by (simp add: Let_def)
  qed
qed

lemma scan_three:
  "scan [c, e, f] k
   = (if \<not> is_nil (c k) then c k else if \<not> is_nil (e k) then e k
      else if \<not> is_nil (f k) then f k else ANil)"
  by (simp add: Let_def)

lemma is_nil_ANil [simp]: "is_nil ANil"
  by (simp add: is_nil_def)

lemma collectParams_fields_only_keys:
  "collectParams_fields ca flds prefix h = Some (ps, h') \<Longrightarrow> (h' a)\<lparr>kP := x\<rparr> = (h a)\<lparr>kP := x\<rparr>"
proof (induction ca flds prefix h arbitrary: ps h' rule: collectParams_fields.induct)
  case (1 canAddr prefix h)
  then show ?case by simp
next
  case (2 canAddr tg anon ex fv flds prefix h)
  show ?case
  proof (cases "tg = [] \<and> \<not> anon")
    case True
    with 2 show ?thesis by simp
  next
    case False
    define k where "k = (if prefix \<noteq> [] \<and> tg \<noteq> [] then prefix @ ''.'' @ tg
                  else if prefix \<noteq> [] then prefix else tg)"
    from "2.prems" False have ok: "\<not> (canAddr \<and> \<not> ex)"
      by (auto simp: Let_def split: if_splits)
    show ?thesis
    proof (cases fv)
      case (RParam b)
      with "2.prems" False ok obtain qs where
        r: "collectParams_fields canAddr flds prefix (h(b := setKey (h b) k)) = Some (qs, h')"
        and c: canAddr
        by (auto simp: Let_def k_def split: if_splits option.splits)
      from "2.IH"(2) [OF False k_def ok RParam c r]
      have "(h' a)\<lparr>kP := x\<rparr> = ((h(b := setKey (h b) k)) a)\<lparr>kP := x\<rparr>" .
      then show ?thesis by (simp add: setKey_def)
    next
      case (RStruct nested)
      with "2.prems" False ok obtain ns h1 qs where
        n: "collectParams_fields True nested k h = Some (ns, h1)"
        and r: "collectParams_fields canAddr flds prefix h1 = Some (qs, h')"
        and c: canAddr
        by (auto simp: Let_def k_def split: if_splits option.splits)
      from "2.IH"(3) [OF False k_def ok RStruct c n]
      have 1: "(h1 a)\<lparr>kP := x\<rparr> = (h a)\<lparr>kP := x\<rparr>" .
      from "2.IH"(4) [OF False k_def ok RStruct c n _ r]
      have "(h' a)\<lparr>kP := x\<rparr> = (h1 a)\<lparr>kP := x\<rparr>" by simp
      with 1 show ?thesis by simp
    next
      case ROther
      with "2.prems" False ok have
        r: "collectParams_fields canAddr flds prefix h = Some (ps, h')"
        by (auto simp: Let_def split: if_splits)
      from "2.IH"(5) [OF False k_def ok ROther r] show ?thesis .
    qed
  qed
qed


lemma collectParams_only_keys:
  "collectParams c prefix h = Some (ps, h') \<Longrightarrow> (h' a)\<lparr>kP := x\<rparr> = (h a)\<lparr>kP := x\<rparr>"
  by (cases c) (auto simp: collectParams_def dest: collectParams_fields_only_keys)

lemma collectAllParams_loop_only_keys:
  "collectAllParams_loop rs h = Some (ps, h') \<Longrightarrow> (h' a)\<lparr>kP := x\<rparr> = (h a)\<lparr>kP := x\<rparr>"
proof (induction rs arbitrary: h ps)
  case Nil
  then show ?case by simp
next
  case (Cons r rs)
  obtain prefix c where r: "r = (prefix, c)" by (cases r)
  from Cons.prems r obtain qs h1 rest where
    1: "collectParams c prefix h = Some (qs, h1)" and 2: "collectAllParams_loop rs h1 = Some (rest, h')"
    by (auto split: option.splits)
  from Cons.IH [OF 2] collectParams_only_keys [OF 1, where a = a and x = x] show ?case by simp
qed

lemma only_keys_fields:
  assumes "(q :: 'f param)\<lparr>kP := x\<rparr> = p\<lparr>kP := x\<rparr>"
  shows "valueP q = valueP p" and "setP q = setP p"
proof -
  have "valueP (q\<lparr>kP := x\<rparr>) = valueP (p\<lparr>kP := x\<rparr>)" "setP (q\<lparr>kP := x\<rparr>) = setP (p\<lparr>kP := x\<rparr>)"
    using assms by simp_all
  then show "valueP q = valueP p" and "setP q = setP p" by simp_all
qed

lemma only_keys_kind:
  assumes "(q :: 'f param)\<lparr>kP := x\<rparr> = p\<lparr>kP := x\<rparr>"
  shows "kind q = kind p"
proof -
  have "kind (q\<lparr>kP := x\<rparr>) = kind (p\<lparr>kP := x\<rparr>)"
    using assms by simp
  then show ?thesis by simp
qed

lemma setFrom_stores:
  assumes "coerced L (kind p) v sep = Some x"
  shows "valueP (snd (setFrom L p v sep)) = x" and "IsSet (snd (setFrom L p v sep))"
  using setFrom_coerced(1) [OF assms] by (simp_all add: IsSet_def)

lemma setFrom_fails:
  assumes "coerced L (kind p) v sep = None"
  shows "IsSet (snd (setFrom L p v sep)) = IsSet p"
proof -
  from setFrom_coerced(2) [OF assms] obtain e where "fst (setFrom L p v sep) = Some e"
    by auto
  from setFrom_error(2) [OF this] show ?thesis by (simp add: IsSet_def)
qed

text \<open>
  C1. When the file source is built and the structs are walked, \<^verbatim>\<open>Load\<close> returns, and
  every parameter that was collected once is left as follows. Its key is the one the walk
  gave it, and \<open>w\<close> is the value of the first source that has one for this key, asked in
  the order command line, environment, file. The parameter is what the coercion of \<open>w\<close>
  leaves. When the coercion of \<open>w\<close> to the parameter's type yields a value, the
  parameter's value after the load is that value and \<^verbatim>\<open>IsSet()\<close> is true: the value of the
  command line if it has one, else of the environment if it has one, else of the file.
  For a string parameter and a textual \<open>w\<close> the value after the load is \<open>w\<close> itself.
  When the coercion of \<open>w\<close> fails, \<^verbatim>\<open>IsSet()\<close> is as before the load. When no source has a
  value the parameter is as it was after the walk: its value is the one it had before
  the load (the default the builder stored, or the zero value) and \<^verbatim>\<open>IsSet()\<close> is as
  before (false).
\<close>

theorem source_priority:
  fixes L :: "'f golib"
  assumes "newYAMLSource W (Load_configFile W (Load_opts l)) = Inr y"
      and "collectAllParams l h = Some (params, h1)"
      and "distinct params" and "a \<in> set params"
  shows "\<exists>r h'. Load L W l h = Some (r, h') \<and>
           (let p = h1 a; sep = ListSeparator (Load_opts l);
                c = cliSource_get (newCLISource (Args (Load_opts l))) (key p);
                e = envSource_get L W (EnvPrefix (Load_opts l)) (key p);
                f = yamlSource_get L y (key p);
                w = (if \<not> is_nil c then c else if \<not> is_nil e then e else f)
            in h' a = (if \<not> is_nil c then snd (setFrom L p c sep)
                       else if \<not> is_nil e then snd (setFrom L p e sep)
                       else if \<not> is_nil f then snd (setFrom L p f sep)
                       else p)
               \<and> (\<forall>x. \<not> is_nil w \<and> coerced L (kind (h a)) w sep = Some x \<longrightarrow>
                      valueP (h' a) = x \<and> IsSet (h' a))
               \<and> (\<forall>s. kind (h a) = KString \<and> w = AString s \<longrightarrow>
                      valueP (h' a) = VString s \<and> IsSet (h' a))
               \<and> (\<not> is_nil w \<and> coerced L (kind (h a)) w sep = None \<longrightarrow>
                      IsSet (h' a) = IsSet (h a))
               \<and> (is_nil w \<longrightarrow> valueP (h' a) = valueP (h a) \<and> IsSet (h' a) = IsSet (h a)))"
proof -
  let ?opts = "Load_opts l"
  let ?sep = "ListSeparator ?opts"
  let ?srcs = "Load_sources L W ?opts y"
  let ?r = "load_loop L params ?srcs ?opts [] h1"
  let ?res = "if length (fst ?r) > 0 then LoadError (fst ?r) else NoError"
  let ?p = "h1 a"
  let ?c = "cliSource_get (newCLISource (Args ?opts)) (key ?p) :: 'f any"
  let ?e = "envSource_get L W (EnvPrefix ?opts) (key ?p)"
  let ?f = "yamlSource_get L y (key ?p)"
  let ?w = "if \<not> is_nil ?c then ?c else if \<not> is_nil ?e then ?e else ?f"
  have L: "Load L W l h = Some (?res, snd ?r)"
    using assms(1,2) by (simp add: Load_def Let_def)
  have at: "snd ?r a = fst (loadParam L ?p ?srcs ?opts [])"
    using assms(3,4) by (rule load_loop_at)
  have sc: "scan ?srcs (key ?p) = (if \<not> is_nil ?w then ?w else ANil)"
    unfolding Load_sources_def by (subst scan_three) simp
  have keep: "valueP ?p = valueP (h a)" "setP ?p = setP (h a)" "kind ?p = kind (h a)"
    using collectAllParams_loop_only_keys [where rs = "registrations l" and h = h and h' = h1
        and a = a and x = "[]"] assms(2)
      only_keys_fields [where q = "h1 a" and x = "[]" and p = "h a"]
      only_keys_kind [where q = "h1 a" and x = "[]" and p = "h a"]
    by (simp_all add: collectAllParams_def)
  have res: "snd ?r a = (if \<not> is_nil ?w then snd (setFrom L ?p ?w ?sep) else ?p)"
    unfolding at fst_loadParam sc by simp
  have chain: "snd ?r a = (if \<not> is_nil ?c then snd (setFrom L ?p ?c ?sep)
                       else if \<not> is_nil ?e then snd (setFrom L ?p ?e ?sep)
                       else if \<not> is_nil ?f then snd (setFrom L ?p ?f ?sep)
                       else ?p)"
    unfolding res by simp
  have ok: "valueP (snd ?r a) = x \<and> IsSet (snd ?r a)"
    if "\<not> is_nil ?w \<and> coerced L (kind (h a)) ?w ?sep = Some x" for x
  proof -
    from that have "coerced L (kind ?p) ?w ?sep = Some x" by (simp only: keep)
    from setFrom_stores [OF this] that show ?thesis unfolding res by simp
  qed
  have str: "valueP (snd ?r a) = VString s \<and> IsSet (snd ?r a)"
    if "kind (h a) = KString \<and> ?w = AString s" for s
  proof -
    from that have "\<not> is_nil ?w \<and> coerced L (kind (h a)) ?w ?sep = Some (VString s)"
      by (simp add: is_nil_def coerced_def fromText_def)
    then show ?thesis by (rule ok)
  qed
  have bad: "IsSet (snd ?r a) = IsSet (h a)"
    if "\<not> is_nil ?w \<and> coerced L (kind (h a)) ?w ?sep = None"
  proof -
    from that have "coerced L (kind ?p) ?w ?sep = None" by (simp only: keep)
    from setFrom_fails [OF this] that keep(2) show ?thesis
      unfolding res by (simp add: IsSet_def)
  qed
  have none: "valueP (snd ?r a) = valueP (h a) \<and> IsSet (snd ?r a) = IsSet (h a)" if "is_nil ?w"
    using that keep unfolding res by (simp add: IsSet_def)
  from chain ok str bad none
  have "(let p = h1 a; sep = ListSeparator (Load_opts l);
                c = cliSource_get (newCLISource (Args (Load_opts l))) (key p);
                e = envSource_get L W (EnvPrefix (Load_opts l)) (key p);
                f = yamlSource_get L y (key p);
                w = (if \<not> is_nil c then c else if \<not> is_nil e then e else f)
            in snd ?r a = (if \<not> is_nil c then snd (setFrom L p c sep)
                       else if \<not> is_nil e then snd (setFrom L p e sep)
                       else if \<not> is_nil f then snd (setFrom L p f sep)
                       else p)
               \<and> (\<forall>x. \<not> is_nil w \<and> coerced L (kind (h a)) w sep = Some x \<longrightarrow>
                      valueP (snd ?r a) = x \<and> IsSet (snd ?r a))
               \<and> (\<forall>s. kind (h a) = KString \<and> w = AString s \<longrightarrow>
                      valueP (snd ?r a) = VString s \<and> IsSet (snd ?r a))
               \<and> (\<not> is_nil w \<and> coerced L (kind (h a)) w sep = None \<longrightarrow>
                      IsSet (snd ?r a) = IsSet (h a))
               \<and> (is_nil w \<longrightarrow> valueP (snd ?r a) = valueP (h a) \<and> IsSet (snd ?r a) = IsSet (h a)))"
    unfolding Let_def by blast
  with L show ?thesis by blast
qed

theorem source_priority_witness:
  "newYAMLSource sample_world (Load_configFile sample_world (Load_opts db_loader)) = Inr db_tree
   \<and> collectAllParams db_loader db_heap = Some ([10, 11, 12, 13, 14, 15], db_keys)
   \<and> distinct [10 :: nat, 11, 12, 13, 14, 15]
   \<and> cliSource_get (newCLISource (Args (Load_opts db_loader))) ''db.host''
       = (AString ''cli.db.com'' :: int any)
   \<and> envSource_get sample_lib sample_world ''TEST'' ''db.port'' = AString ''2222''
   \<and> yamlSource_get sample_lib db_tree ''db.port'' = AInt 1111
   \<and> yamlSource_get sample_lib db_tree ''db.name'' = AString ''mydb''
   \<and> cliSource_get (newCLISource (Args (Load_opts db_loader))) ''db.use_ssl''
       = (AString ''true'' :: int any)
   \<and> yamlSource_get sample_lib db_tree ''db.max_conns'' = AInt 50
   \<and> (\<exists>r h'. Load sample_lib sample_world db_loader db_heap = Some (r, h')
         \<and> valueP (h' 10) = VString ''cli.db.com'' \<and> IsSet (h' 10)
         \<and> valueP (h' 11) = VInt 2222 \<and> IsSet (h' 11)
         \<and> valueP (h' 12) = VString ''mydb'' \<and> IsSet (h' 12)
         \<and> valueP (h' 13) = VString ''admin'' \<and> \<not> IsSet (h' 13)
         \<and> valueP (h' 14) = VBool True \<and> IsSet (h' 14)
         \<and> valueP (h' 15) = VInt 50 \<and> IsSet (h' 15))"
proof -
  have y: "newYAMLSource sample_world (Load_configFile sample_world (Load_opts db_loader)) = Inr db_tree"
    by (simp add: newYAMLSource_def Load_configFile_def Load_opts_def db_loader_def sample_world_def)
  have c: "collectAllParams db_loader db_heap = Some ([10, 11, 12, 13, 14, 15], db_keys)"
    by (simp add: collectAllParams_def db_loader_def collectParams_def db_keys_def)
  have d: "distinct [10 :: nat, 11, 12, 13, 14, 15]" by simp
  have o: "ListSeparator (Load_opts db_loader) = '',''" "EnvPrefix (Load_opts db_loader) = ''TEST''"
    "Args (Load_opts db_loader) = [''--db.host=cli.db.com'', ''--db.use_ssl'']"
    by (simp_all add: Load_opts_def db_loader_def)
  have k: "key (db_keys 10) = ''db.host''" "key (db_keys 11) = ''db.port''"
    "key (db_keys 12) = ''db.name''" "key (db_keys 13) = ''db.user''"
    "key (db_keys 14) = ''db.use_ssl''" "key (db_keys 15) = ''db.max_conns''"
    by (simp_all add: db_keys_def key_def setKey_def)
  have cli: "newCLISource [''--db.host=cli.db.com'', ''--db.use_ssl''] ''db.host'' = Some ''cli.db.com''"
    "newCLISource [''--db.host=cli.db.com'', ''--db.use_ssl''] ''db.port'' = None"
    "newCLISource [''--db.host=cli.db.com'', ''--db.use_ssl''] ''db.name'' = None"
    "newCLISource [''--db.host=cli.db.com'', ''--db.use_ssl''] ''db.user'' = None"
    "newCLISource [''--db.host=cli.db.com'', ''--db.use_ssl''] ''db.use_ssl'' = Some ''true''"
    "newCLISource [''--db.host=cli.db.com'', ''--db.use_ssl''] ''db.max_conns'' = None"
    by code_simp+
  have env: "envSource_get sample_lib sample_world ''TEST'' ''db.port'' = AString ''2222''"
    "envSource_get sample_lib sample_world ''TEST'' ''db.name'' = ANil"
    "envSource_get sample_lib sample_world ''TEST'' ''db.user'' = ANil"
    "envSource_get sample_lib sample_world ''TEST'' ''db.max_conns'' = ANil"
    by (simp_all add: envSource_get_def sample_lib_def sample_world_def sample_ToUpper_def
        strings_ReplaceAll1_def)
  have sp: "strings_Split sample_lib ''db.name'' ''.'' = [''db'', ''name'']"
    "strings_Split sample_lib ''db.user'' ''.'' = [''db'', ''user'']"
    "strings_Split sample_lib ''db.port'' ''.'' = [''db'', ''port'']"
    "strings_Split sample_lib ''db.max_conns'' ''.'' = [''db'', ''max_conns'']"
    by code_simp+
  have yml: "yamlSource_get sample_lib db_tree ''db.name'' = AString ''mydb''"
    "yamlSource_get sample_lib db_tree ''db.user'' = ANil"
    "yamlSource_get sample_lib db_tree ''db.port'' = AInt 1111"
    "yamlSource_get sample_lib db_tree ''db.max_conns'' = AInt 50"
    by (simp_all add: yamlSource_get_def sp db_tree_def)
  have nil: "is_nil (ANil :: int any)" "\<not> is_nil (AString s :: int any)"
    "\<not> is_nil (AInt i :: int any)" for s i
    by (simp_all add: is_nil_def)
  have co: "coerced sample_lib (kind (db_heap 10)) (AString ''cli.db.com'') '','' = Some (VString ''cli.db.com'')"
    "coerced sample_lib (kind (db_heap 11)) (AString ''2222'') '','' = Some (VInt 2222)"
    "coerced sample_lib (kind (db_heap 12)) (AString ''mydb'') '','' = Some (VString ''mydb'')"
    "coerced sample_lib (kind (db_heap 14)) (AString ''true'') '','' = Some (VBool True)"
    "coerced sample_lib (kind (db_heap 15)) (AInt 50) '','' = Some (VInt 50)"
    by code_simp+
  have before: "valueP (db_heap 13) = VString ''admin''" "\<not> IsSet (db_heap 13)"
    by code_simp+
  from source_priority [OF y c d, of 10 sample_lib]
  have "\<exists>r h'. Load sample_lib sample_world db_loader db_heap = Some (r, h')
          \<and> valueP (h' 10) = VString ''cli.db.com'' \<and> IsSet (h' 10)"
    by (clarsimp simp add: o k cli cliSource_get_def nil co Let_def)
  then obtain r h' where L: "Load sample_lib sample_world db_loader db_heap = Some (r, h')"
    and r10: "valueP (h' 10) = VString ''cli.db.com''" "IsSet (h' 10)"
    by blast
  from source_priority [OF y c d, of 11 sample_lib] L
  have r11: "valueP (h' 11) = VInt 2222 \<and> IsSet (h' 11)"
    by (clarsimp simp add: o k cli cliSource_get_def env nil co Let_def)
  from source_priority [OF y c d, of 12 sample_lib] L
  have r12: "valueP (h' 12) = VString ''mydb'' \<and> IsSet (h' 12)"
    by (clarsimp simp add: o k cli cliSource_get_def env yml nil co Let_def)
  from source_priority [OF y c d, of 13 sample_lib] L
  have r13: "valueP (h' 13) = VString ''admin'' \<and> \<not> IsSet (h' 13)"
    by (clarsimp simp add: o k cli cliSource_get_def env yml nil before Let_def)
  from source_priority [OF y c d, of 14 sample_lib] L
  have r14: "valueP (h' 14) = VBool True \<and> IsSet (h' 14)"
    by (clarsimp simp add: o k cli cliSource_get_def nil co Let_def)
  from source_priority [OF y c d, of 15 sample_lib] L
  have r15: "valueP (h' 15) = VInt 50 \<and> IsSet (h' 15)"
    by (clarsimp simp add: o k cli cliSource_get_def env yml nil co Let_def)
  have srcs: "cliSource_get (newCLISource (Args (Load_opts db_loader))) ''db.host''
       = (AString ''cli.db.com'' :: int any)"
    "cliSource_get (newCLISource (Args (Load_opts db_loader))) ''db.use_ssl''
       = (AString ''true'' :: int any)"
    by (simp_all add: o cli cliSource_get_def)
  from y c d L r10 r11 r12 r13 r14 r15 srcs env(1) yml(1,3,4) show ?thesis
    by blast
qed

section \<open>C9: the file source\<close>

lemma split_sep_nonempty: "split_sep s sep \<noteq> []"
  by (subst split_sep.simps) (simp add: Let_def)

lemma yamlSource_get_empty: "yamlSource_get L Map.empty k = ANil"
proof -
  obtain x xs where "strings_Split L k ''.'' = x # xs"
    using split_sep_nonempty [of k "''.''"]
    by (cases "split_sep k ''.''") (auto simp: strings_Split_def)
  then show ?thesis by (simp add: yamlSource_get_def)
qed

lemma Load_not_fatal:
  "newYAMLSource W (Load_configFile W (Load_opts l)) = Inr y \<Longrightarrow> Load L W l h \<noteq> Some (Fatal e, h')"
  by (auto simp: Load_def Let_def split: option.splits)

text \<open>
  C9. With an empty path, or a path that \<^verbatim>\<open>os.ReadFile\<close> reports as not existing,
  \<^verbatim>\<open>newYAMLSource\<close> succeeds with the empty tree, every lookup in it is nil, and \<^verbatim>\<open>Load\<close>
  does not return a fatal error. When the file is read and does not decode, \<^verbatim>\<open>Load\<close>
  returns the decoder's error itself, not a \<^verbatim>\<open>LoadError\<close>, and every parameter is as it
  was before the call: no key was assigned and no value loaded.
\<close>

theorem file_source:
  fixes L :: "'f golib"
  shows "(filename = [] \<or> (\<exists>msg. os_ReadFile W filename = Inl (ReadError True msg)) \<longrightarrow>
            newYAMLSource W filename = Inr Map.empty
            \<and> (\<forall>k. yamlSource_get L Map.empty k = (ANil :: 'f any)))
       \<and> (Load_configFile W (Load_opts l) = [] 
            \<or> (\<exists>msg. os_ReadFile W (Load_configFile W (Load_opts l)) = Inl (ReadError True msg)) \<longrightarrow>
            (\<forall>e h'. Load L W l h \<noteq> Some (Fatal e, h')))
       \<and> (Load_configFile W (Load_opts l) \<noteq> []
            \<and> os_ReadFile W (Load_configFile W (Load_opts l)) = Inr content
            \<and> yaml_Unmarshal W content = Inl err \<longrightarrow>
            Load L W l h = Some (Fatal err, h))"
proof (intro conjI impI allI)
  assume a: "filename = [] \<or> (\<exists>msg. os_ReadFile W filename = Inl (ReadError True msg))"
  then show "newYAMLSource W filename = Inr Map.empty"
    by (auto simp: newYAMLSource_def)
next
  fix k show "yamlSource_get L Map.empty k = (ANil :: 'f any)"
    by (rule yamlSource_get_empty)
next
  fix e h'
  assume "Load_configFile W (Load_opts l) = [] 
            \<or> (\<exists>msg. os_ReadFile W (Load_configFile W (Load_opts l)) = Inl (ReadError True msg))"
  then have "newYAMLSource W (Load_configFile W (Load_opts l)) = Inr Map.empty"
    by (auto simp: newYAMLSource_def)
  then show "Load L W l h \<noteq> Some (Fatal e, h')"
    by (rule Load_not_fatal)
next
  assume "Load_configFile W (Load_opts l) \<noteq> []
            \<and> os_ReadFile W (Load_configFile W (Load_opts l)) = Inr content
            \<and> yaml_Unmarshal W content = Inl err"
  then have "newYAMLSource W (Load_configFile W (Load_opts l)) = Inl err"
    by (simp add: newYAMLSource_def)
  then show "Load L W l h = Some (Fatal err, h)"
    by (simp add: Load_def Let_def)
qed

text \<open>
  The file \<^verbatim>\<open>missing.yaml\<close> does not exist; a loader without a file path; and a loader whose
  file is \<^verbatim>\<open>broken.yaml\<close>.
\<close>

theorem file_source_witness:
  "(\<exists>msg. os_ReadFile sample_world ''missing.yaml'' = Inl (ReadError True msg))
   \<and> newYAMLSource sample_world ''missing.yaml'' = Inr Map.empty
   \<and> yamlSource_get sample_lib Map.empty ''db.host'' = ANil
   \<and> Load_configFile sample_world (Load_opts (db_loader\<lparr>loader_opts := no_options\<rparr>)) = []
   \<and> Load sample_lib sample_world (db_loader\<lparr>loader_opts := no_options\<rparr>) db_heap
       \<noteq> Some (Fatal (DecodeError []), db_heap)
   \<and> Load_configFile sample_world
        (Load_opts (db_loader\<lparr>loader_opts := no_options\<lparr>ConfigFile := ''broken.yaml''\<rparr>\<rparr>)) \<noteq> []
   \<and> os_ReadFile sample_world (Load_configFile sample_world
        (Load_opts (db_loader\<lparr>loader_opts := no_options\<lparr>ConfigFile := ''broken.yaml''\<rparr>\<rparr>)))
       = Inr ''db: [''
   \<and> yaml_Unmarshal sample_world ''db: [''
       = Inl (DecodeError ''yaml: did not find expected node content'')
   \<and> Load sample_lib sample_world
        (db_loader\<lparr>loader_opts := no_options\<lparr>ConfigFile := ''broken.yaml''\<rparr>\<rparr>) db_heap
       = Some (Fatal (DecodeError ''yaml: did not find expected node content''), db_heap)"
proof -
  let ?l1 = "db_loader\<lparr>loader_opts := no_options\<rparr>"
  let ?l2 = "db_loader\<lparr>loader_opts := no_options\<lparr>ConfigFile := ''broken.yaml''\<rparr>\<rparr>"
  have h1: "\<exists>msg. os_ReadFile sample_world ''missing.yaml'' = Inl (ReadError True msg)"
    by (simp add: sample_world_def)
  have h2: "Load_configFile sample_world (Load_opts ?l1) = []"
    by (simp add: Load_configFile_def Load_opts_def no_options_def)
  have f: "Load_configFile sample_world (Load_opts ?l2) = ''broken.yaml''"
    by (simp add: Load_configFile_def Load_opts_def no_options_def)
  have h3: "Load_configFile sample_world (Load_opts ?l2) \<noteq> []
            \<and> os_ReadFile sample_world (Load_configFile sample_world (Load_opts ?l2)) = Inr ''db: [''
            \<and> yaml_Unmarshal sample_world ''db: [''
                = Inl (DecodeError ''yaml: did not find expected node content'')"
    unfolding f by (simp add: sample_world_def)
  note t1 = file_source [where filename = "''missing.yaml''" and W = sample_world
        and L = sample_lib and l = ?l1 and h = db_heap]
  note t2 = file_source [where W = sample_world and L = sample_lib and l = ?l2 and h = db_heap
        and content = "''db: [''"
        and err = "DecodeError ''yaml: did not find expected node content''"]
  from t1 h1 have a: "newYAMLSource sample_world ''missing.yaml'' = Inr Map.empty
      \<and> yamlSource_get sample_lib Map.empty ''db.host'' = ANil" by blast
  from t1 h2 have b: "Load sample_lib sample_world ?l1 db_heap \<noteq> Some (Fatal (DecodeError []), db_heap)"
    by blast
  from t2 h3 have c: "Load sample_lib sample_world ?l2 db_heap
       = Some (Fatal (DecodeError ''yaml: did not find expected node content''), db_heap)"
    by blast
  from h1 h2 h3 a b c show ?thesis by blast
qed

section \<open>The command line\<close>

lemma strings_Index_char:
  "strings_Index s [c] = (if c \<in> set s then int (length (takeWhile (\<lambda>x. x \<noteq> c) s)) else -1)"
  by (induction s) (auto simp: strings_HasPrefix_def Let_def)

lemma HasPrefix_dashes [simp]: "strings_HasPrefix (CHR ''-'' # CHR ''-'' # k) ''--''"
  by (simp add: strings_HasPrefix_def)

lemma TrimPrefix_dashes:
  "strings_HasPrefix a ''--'' \<Longrightarrow> strings_TrimPrefix a ''--'' = drop 2 a"
  by (simp add: strings_TrimPrefix_def numeral_2_eq_2)

lemma take_takeWhile:
  "take (length (takeWhile P xs)) xs = takeWhile P xs"
  by (induction xs) auto

lemma drop_takeWhile:
  "drop (length (takeWhile P xs)) xs = dropWhile P xs"
  by (induction xs) auto

lemma cli_loop_step:
  "cli_loop (a # rest) values =
     (if \<not> strings_HasPrefix a ''--'' then cli_loop rest values
      else if CHR ''='' \<in> set (drop 2 a)
      then cli_loop rest (values(takeWhile (\<lambda>c. c \<noteq> CHR ''='') (drop 2 a)
                                   \<mapsto> tl (dropWhile (\<lambda>c. c \<noteq> CHR ''='') (drop 2 a))))
      else (case rest of
              [] \<Rightarrow> values(drop 2 a \<mapsto> ''true'')
            | nxt # rest' \<Rightarrow>
                if strings_HasPrefix nxt ''--'' then cli_loop rest (values(drop 2 a \<mapsto> ''true''))
                else cli_loop rest' (values(drop 2 a \<mapsto> nxt))))"
proof (cases "strings_HasPrefix a ''--''")
  case False
  then show ?thesis by simp
next
  case True
  have d: "drop (Suc (length (takeWhile P xs))) xs = tl (dropWhile P xs)" for P and xs :: string
    by (metis drop_Suc drop_takeWhile tl_drop)
  have i: "strings_Index (drop 2 a) ''=''
           = (if CHR ''='' \<in> set (drop 2 a)
              then int (length (takeWhile (\<lambda>x. x \<noteq> CHR ''='') (drop 2 a))) else -1)"
    by (rule strings_Index_char)
  show ?thesis
  proof (cases "CHR ''='' \<in> set (drop 2 a)")
    case yes: True
    then have "cli_loop (a # rest) values
      = cli_loop rest (values(take (length (takeWhile (\<lambda>x. x \<noteq> CHR ''='') (drop 2 a))) (drop 2 a)
           \<mapsto> drop (length (takeWhile (\<lambda>x. x \<noteq> CHR ''='') (drop 2 a)) + 1) (drop 2 a)))"
      using True by (simp add: TrimPrefix_dashes i Let_def del: drop_drop)
    then show ?thesis
      using True yes by (simp only: take_takeWhile Suc_eq_plus1 [symmetric] d if_True if_False not_True_eq_False)
  next
    case no: False
    then have "cli_loop (a # rest) values
      = (case rest of
              [] \<Rightarrow> cli_loop rest (values(drop 2 a \<mapsto> ''true''))
            | nxt # rest' \<Rightarrow>
                if \<not> strings_HasPrefix nxt ''--''
                then cli_loop rest' (values(drop 2 a \<mapsto> nxt))
                else cli_loop rest (values(drop 2 a \<mapsto> ''true'')))"
      using True by (simp add: TrimPrefix_dashes i Let_def)
    then show ?thesis
      using True no by (cases rest) simp_all
  qed
qed


lemma cli_loop_fold:
  "cli_loop args vals = fold (\<lambda>kv m. m(fst kv \<mapsto> snd kv)) (cliFlags args) vals"
proof (induction "length args" arbitrary: args vals rule: less_induct)
  case less
  let ?f = "\<lambda>kv m. m(fst kv \<mapsto> snd kv) :: string \<Rightarrow> string option"
  show ?case
  proof (cases args)
    case Nil
    then show ?thesis by simp
  next
    case args: (Cons a rest)
    show ?thesis
    proof (cases rest)
      case Nil
      show ?thesis
        unfolding args Nil
        by (subst cli_loop_step, subst cliFlags.simps(2)) (simp add: Let_def)
    next
      case rest: (Cons nxt rest')
      have ih1: "cli_loop (nxt # rest') m = fold ?f (cliFlags (nxt # rest')) m" for m
        using less [of "nxt # rest'" m] args rest by simp
      have ih2: "cli_loop rest' m = fold ?f (cliFlags rest') m" for m
        using less [of rest' m] args rest by simp
      show ?thesis
        unfolding args rest
        by (subst cli_loop_step, subst cliFlags.simps(2))
           (simp add: Let_def ih1 ih2 del: cli_loop.simps cliFlags.simps)
    qed
  qed
qed

lemma fold_upd_lookup:
  "fold (\<lambda>kv m. m(fst kv \<mapsto> snd kv)) ps m k
   = (case map_of (rev ps) k of Some v \<Rightarrow> Some v | None \<Rightarrow> m k)"
  by (induction ps arbitrary: m) (auto simp: map_add_def split: option.splits)

lemma cliFlags_Cons_cases:
  "(\<not> strings_HasPrefix a ''--'' \<and> cliFlags (a # rest) = cliFlags rest)
   \<or> (strings_HasPrefix a ''--''
       \<and> (\<exists>v. cliFlags (a # rest) = (takeWhile (\<lambda>c. c \<noteq> CHR ''='') (drop 2 a), v) # cliFlags rest))
   \<or> (strings_HasPrefix a ''--''
       \<and> (\<exists>nxt rest'. rest = nxt # rest'
            \<and> cliFlags (a # rest) = (takeWhile (\<lambda>c. c \<noteq> CHR ''='') (drop 2 a), nxt) # cliFlags rest'))"
proof (cases "strings_HasPrefix a ''--''")
  case False
  then show ?thesis by simp
next
  case pre: True
  show ?thesis
  proof (cases "CHR ''='' \<in> set (drop 2 a)")
    case True
    with pre show ?thesis by (simp add: Let_def)
  next
    case False
    then have "\<forall>x\<in>set (drop 2 a). x \<noteq> CHR ''=''" by blast
    then have k: "takeWhile (\<lambda>c. c \<noteq> CHR ''='') (drop 2 a) = drop 2 a"
      by (simp only: takeWhile_eq_all_conv)
    show ?thesis
    proof (cases rest)
      case Nil
      with pre False show ?thesis unfolding k by (simp add: Let_def)
    next
      case (Cons nxt rest')
      with pre False show ?thesis unfolding k
        by (cases "strings_HasPrefix nxt ''--''") (simp_all add: Let_def del: cliFlags.simps(2) add: cliFlags.simps(2) [of a])
    qed
  qed
qed


lemma cliFlags_keys:
  "kv \<in> set (cliFlags args) \<Longrightarrow>
   \<exists>a\<in>set args. strings_HasPrefix a ''--'' \<and> fst kv = takeWhile (\<lambda>c. c \<noteq> CHR ''='') (drop 2 a)"
proof (induction "length args" arbitrary: args rule: less_induct)
  case less
  show ?case
  proof (cases args)
    case Nil
    with less.prems show ?thesis by simp
  next
    case (Cons a rest)
    from cliFlags_Cons_cases [of a rest]
    consider (skip) "\<not> strings_HasPrefix a ''--''" "cliFlags (a # rest) = cliFlags rest"
      | (one) v where "strings_HasPrefix a ''--''"
          "cliFlags (a # rest) = (takeWhile (\<lambda>c. c \<noteq> CHR ''='') (drop 2 a), v) # cliFlags rest"
      | (two) nxt rest' where "strings_HasPrefix a ''--''" "rest = nxt # rest'"
          "cliFlags (a # rest) = (takeWhile (\<lambda>c. c \<noteq> CHR ''='') (drop 2 a), nxt) # cliFlags rest'"
      by blast
    then show ?thesis
    proof cases
      case skip
      with less.prems Cons have "kv \<in> set (cliFlags rest)" by simp
      from less.hyps [OF _ this] Cons show ?thesis by auto
    next
      case one
      with less.prems Cons have
        "fst kv = takeWhile (\<lambda>c. c \<noteq> CHR ''='') (drop 2 a) \<or> kv \<in> set (cliFlags rest)"
        by auto
      then show ?thesis
      proof
        assume "fst kv = takeWhile (\<lambda>c. c \<noteq> CHR ''='') (drop 2 a)"
        with one(1) Cons show ?thesis by auto
      next
        assume "kv \<in> set (cliFlags rest)"
        from less.hyps [OF _ this] Cons show ?thesis by auto
      qed
    next
      case two
      with less.prems Cons have
        "fst kv = takeWhile (\<lambda>c. c \<noteq> CHR ''='') (drop 2 a) \<or> kv \<in> set (cliFlags rest')"
        by auto
      then show ?thesis
      proof
        assume "fst kv = takeWhile (\<lambda>c. c \<noteq> CHR ''='') (drop 2 a)"
        with two(1) Cons show ?thesis by auto
      next
        assume "kv \<in> set (cliFlags rest')"
        from less.hyps [OF _ this] Cons two(2) show ?thesis by auto
      qed
    qed
  qed
qed

lemma newCLISource_lookup:
  "newCLISource args k = map_of (rev (cliFlags args)) k"
  by (simp add: newCLISource_def cli_loop_fold fold_upd_lookup split: option.splits)

lemma newCLISource_keys:
  assumes "k \<in> dom (newCLISource args)"
  shows "\<exists>a\<in>set args. strings_HasPrefix a ''--'' \<and> k = takeWhile (\<lambda>c. c \<noteq> CHR ''='') (drop 2 a)"
proof -
  from assms obtain v where "map_of (rev (cliFlags args)) k = Some v"
    by (auto simp: newCLISource_lookup)
  then have "(k, v) \<in> set (cliFlags args)"
    by (auto dest: map_of_SomeD)
  from cliFlags_keys [OF this] show ?thesis by simp
qed


lemma takeWhile_stop:
  "c \<notin> set k \<Longrightarrow> takeWhile (\<lambda>x. x \<noteq> c) (k @ c # v) = k \<and> dropWhile (\<lambda>x. x \<noteq> c) (k @ c # v) = c # v"
  by (induction k) auto

lemma takeWhile_all:
  "c \<notin> set k \<Longrightarrow> takeWhile (\<lambda>x. x \<noteq> c) k = k"
  by (induction k) auto

section \<open>C2: the forms of a flag\<close>

text \<open>
  C2. At any point of any argument list (whatever the arguments that follow and the
  map built so far): an argument that does not start with \<^verbatim>\<open>--\<close> is stepped over;
  \<^verbatim>\<open>--key=value\<close>, split at the first \<^verbatim>\<open>=\<close> (the key holds none, the value may), maps the
  key to the value; \<^verbatim>\<open>--key\<close> followed by an argument that does not start with \<^verbatim>\<open>--\<close> maps
  the key to that argument and steps over it; \<^verbatim>\<open>--key\<close> followed by an argument that starts
  with \<^verbatim>\<open>--\<close>, or by nothing, maps the key to \<^verbatim>\<open>true\<close> and goes on with the next argument.
  Every key of the finished map is the text between \<^verbatim>\<open>--\<close> and the first \<^verbatim>\<open>=\<close> of an
  argument that starts with \<^verbatim>\<open>--\<close>: no other argument is taken as a key.
\<close>

theorem cli_token_forms:
  "(\<not> strings_HasPrefix a ''--'' \<longrightarrow> cli_loop (a # rest) vals = cli_loop rest vals)
   \<and> (CHR ''='' \<notin> set k \<longrightarrow>
        cli_loop ((''--'' @ k @ ''='' @ v) # rest) vals = cli_loop rest (vals(k \<mapsto> v)))
   \<and> (CHR ''='' \<notin> set k \<and> \<not> strings_HasPrefix nxt ''--'' \<longrightarrow>
        cli_loop ((''--'' @ k) # nxt # rest) vals = cli_loop rest (vals(k \<mapsto> nxt)))
   \<and> (CHR ''='' \<notin> set k \<and> strings_HasPrefix nxt ''--'' \<longrightarrow>
        cli_loop ((''--'' @ k) # nxt # rest) vals = cli_loop (nxt # rest) (vals(k \<mapsto> ''true'')))
   \<and> (CHR ''='' \<notin> set k \<longrightarrow> cli_loop [''--'' @ k] vals = vals(k \<mapsto> ''true''))
   \<and> (\<forall>key\<in>dom (newCLISource args).
         \<exists>a\<in>set args. strings_HasPrefix a ''--''
                       \<and> key = takeWhile (\<lambda>c. c \<noteq> CHR ''='') (drop 2 a))"
proof (intro conjI impI ballI)
  assume "\<not> strings_HasPrefix a ''--''"
  then show "cli_loop (a # rest) vals = cli_loop rest vals" by simp
next
  assume k: "CHR ''='' \<notin> set k"
  have d: "drop 2 (''--'' @ k @ ''='' @ v) = k @ CHR ''='' # v" by simp
  show "cli_loop ((''--'' @ k @ ''='' @ v) # rest) vals = cli_loop rest (vals(k \<mapsto> v))"
    by (subst cli_loop_step) (simp add: d takeWhile_stop [OF k] del: cli_loop.simps)
next
  assume "CHR ''='' \<notin> set k \<and> \<not> strings_HasPrefix nxt ''--''"
  then show "cli_loop ((''--'' @ k) # nxt # rest) vals = cli_loop rest (vals(k \<mapsto> nxt))"
    by (subst cli_loop_step) (simp del: cli_loop.simps)
next
  assume "CHR ''='' \<notin> set k \<and> strings_HasPrefix nxt ''--''"
  then show "cli_loop ((''--'' @ k) # nxt # rest) vals = cli_loop (nxt # rest) (vals(k \<mapsto> ''true''))"
    by (subst cli_loop_step) (simp del: cli_loop.simps)
next
  assume "CHR ''='' \<notin> set k"
  then show "cli_loop [''--'' @ k] vals = vals(k \<mapsto> ''true'')"
    by (subst cli_loop_step) (simp del: cli_loop.simps)
next
  fix key assume "key \<in> dom (newCLISource args)"
  then show "\<exists>a\<in>set args. strings_HasPrefix a ''--''
                       \<and> key = takeWhile (\<lambda>c. c \<noteq> CHR ''='') (drop 2 a)"
    by (rule newCLISource_keys)
qed

theorem cli_token_forms_witness:
  "\<not> strings_HasPrefix ''-v'' ''--'' \<and> CHR ''='' \<notin> set ''with.equals''
   \<and> \<not> strings_HasPrefix ''a=b=c'' ''--'' \<and> strings_HasPrefix ''--opt2'' ''--''
   \<and> cli_loop [''-v'', ''--with.equals=key=value=extra''] Map.empty
       = cli_loop [''--with.equals=key=value=extra''] Map.empty
   \<and> cli_loop [''--with.equals=key=value=extra''] Map.empty
       = [''with.equals'' \<mapsto> ''key=value=extra'']
   \<and> cli_loop [''--with.equals'', ''a=b=c''] Map.empty = [''with.equals'' \<mapsto> ''a=b=c'']
   \<and> cli_loop [''--with.equals'', ''--opt2''] Map.empty
       = cli_loop [''--opt2''] [''with.equals'' \<mapsto> ''true'']
   \<and> cli_loop [''--with.equals''] Map.empty = [''with.equals'' \<mapsto> ''true'']
   \<and> ''with.equals'' \<in> dom (newCLISource [''--with.equals'', ''a=b=c''])
   \<and> (\<exists>a\<in>set [''--with.equals'', ''a=b=c''].
         strings_HasPrefix a ''--'' \<and> ''with.equals'' = takeWhile (\<lambda>c. c \<noteq> CHR ''='') (drop 2 a))"
proof -
  have h1: "\<not> strings_HasPrefix ''-v'' ''--''"
    and h3: "\<not> strings_HasPrefix ''a=b=c'' ''--''"
    and h4: "strings_HasPrefix ''--opt2'' ''--''"
    by (simp_all add: strings_HasPrefix_def)
  have h2: "CHR ''='' \<notin> set ''with.equals''" by simp
  have s1: "cli_loop [''-v'', ''--with.equals=key=value=extra''] Map.empty
            = cli_loop [''--with.equals=key=value=extra''] Map.empty"
    using cli_token_forms [where a = "''-v''" and rest = "[''--with.equals=key=value=extra'']"
        and vals = Map.empty, THEN conjunct1] h1
    by blast
  have "cli_loop [''--'' @ ''with.equals'' @ ''='' @ ''key=value=extra''] Map.empty
        = cli_loop [] [''with.equals'' \<mapsto> ''key=value=extra'']"
    using cli_token_forms [where k = "''with.equals''" and v = "''key=value=extra''"
        and rest = "[]" and vals = Map.empty, THEN conjunct2, THEN conjunct1] h2
    by blast
  then have s2: "cli_loop [''--with.equals=key=value=extra''] Map.empty
                 = [''with.equals'' \<mapsto> ''key=value=extra'']"
    by (simp del: cli_loop.simps(2))
  have "cli_loop [''--'' @ ''with.equals'', ''a=b=c''] Map.empty
        = cli_loop [] [''with.equals'' \<mapsto> ''a=b=c'']"
    using cli_token_forms [where k = "''with.equals''" and nxt = "''a=b=c''"
        and rest = "[]" and vals = Map.empty, THEN conjunct2, THEN conjunct2, THEN conjunct1] h2 h3
    by blast
  then have s3: "cli_loop [''--with.equals'', ''a=b=c''] Map.empty = [''with.equals'' \<mapsto> ''a=b=c'']"
    by (simp del: cli_loop.simps(2))
  have "cli_loop [''--'' @ ''with.equals'', ''--opt2''] Map.empty
        = cli_loop [''--opt2''] [''with.equals'' \<mapsto> ''true'']"
    using cli_token_forms [where k = "''with.equals''" and nxt = "''--opt2''"
        and rest = "[]" and vals = Map.empty,
        THEN conjunct2, THEN conjunct2, THEN conjunct2, THEN conjunct1] h2 h4
    by blast
  then have s4: "cli_loop [''--with.equals'', ''--opt2''] Map.empty
                 = cli_loop [''--opt2''] [''with.equals'' \<mapsto> ''true'']"
    by (simp del: cli_loop.simps(2))
  have "cli_loop [''--'' @ ''with.equals''] Map.empty = [''with.equals'' \<mapsto> ''true'']"
    using cli_token_forms [where k = "''with.equals''" and vals = Map.empty,
        THEN conjunct2, THEN conjunct2, THEN conjunct2, THEN conjunct2, THEN conjunct1] h2
    by blast
  then have s5: "cli_loop [''--with.equals''] Map.empty = [''with.equals'' \<mapsto> ''true'']"
    by (simp del: cli_loop.simps(2))
  have h5: "''with.equals'' \<in> dom (newCLISource [''--with.equals'', ''a=b=c''])"
    unfolding newCLISource_def s3 by simp
  have s6: "\<exists>a\<in>set [''--with.equals'', ''a=b=c''].
         strings_HasPrefix a ''--'' \<and> ''with.equals'' = takeWhile (\<lambda>c. c \<noteq> CHR ''='') (drop 2 a)"
    using cli_token_forms [where args = "[''--with.equals'', ''a=b=c'']",
        THEN conjunct2, THEN conjunct2, THEN conjunct2, THEN conjunct2, THEN conjunct2] h5
    by blast
  from h1 h2 h3 h4 s1 s2 s3 s4 s5 h5 s6 show ?thesis by blast
qed

section \<open>C3: a key that occurs more than once\<close>

text \<open>
  C3 as stated fails: when a key occurs twice the lookup returns the value of the later
  occurrence, since the later write into the map replaces the earlier one.
\<close>

theorem cli_first_occurrence_overwritten:
  "cliFlags [''--a=1'', ''--a=2''] = [(''a'', ''1''), (''a'', ''2'')]
   \<and> cliSource_get (newCLISource [''--a=1'', ''--a=2'']) ''a'' = (AString ''2'' :: int any)
   \<and> cliSource_get (newCLISource [''--a=1'', ''--a=2'']) ''a'' \<noteq> (AString ''1'' :: int any)"
proof -
  have f: "cliFlags [''--a=1'', ''--a=2''] = [(''a'', ''1''), (''a'', ''2'')]"
    by code_simp
  have g: "newCLISource [''--a=1'', ''--a=2''] ''a'' = Some ''2''"
    by code_simp
  from f g show ?thesis by (simp add: cliSource_get_def)
qed


text \<open>
  C3, amended. For every argument list, the lookup of a key returns the value of the
  last occurrence of that key among the flags of the list.
\<close>

theorem cli_last_occurrence_wins:
  fixes v :: string
  assumes "cliFlags args = before @ (k, v) # after" and "k \<notin> fst ` set after"
  shows "cliSource_get (newCLISource args) k = AString v"
proof -
  from assms(2) have "map_of (rev after) k = None"
    by (simp add: map_of_eq_None_iff)
  then have "map_of (rev (cliFlags args)) k = Some v"
    unfolding assms(1) by (simp add: map_add_def)
  then show ?thesis
    by (simp add: cliSource_get_def newCLISource_lookup)
qed

theorem cli_last_occurrence_wins_witness:
  "cliFlags [''--a=1'', ''--b'', ''x'', ''--a=2''] = [(''a'', ''1''), (''b'', ''x'')] @ (''a'', ''2'') # []
   \<and> ''a'' \<notin> fst ` set ([] :: (string \<times> string) list)
   \<and> cliSource_get (newCLISource [''--a=1'', ''--b'', ''x'', ''--a=2'']) ''a'' = (AString ''2'' :: int any)"
proof -
  have h1: "cliFlags [''--a=1'', ''--b'', ''x'', ''--a=2''] = [(''a'', ''1''), (''b'', ''x'')] @ (''a'', ''2'') # []"
    by code_simp
  have h2: "''a'' \<notin> fst ` set ([] :: (string \<times> string) list)"
    by simp
  from cli_last_occurrence_wins [OF h1 h2] h1 h2 show ?thesis by blast
qed

section \<open>C8: the keys the walk assigns\<close>

lemma assign_key_pair: "assign_key (a, k) h = h(a := setKey (h a) k)"
  by (simp add: assign_key_def)

lemma code_key_is_dotted_key:
  "(if prefix \<noteq> [] \<and> tg \<noteq> [] then prefix @ ''.'' @ tg else if prefix \<noteq> [] then prefix else tg)
   = dotted_key prefix tg"
  by (simp add: dotted_key_def)

lemma collectParams_fields_walk:
  "all_exported flds \<Longrightarrow>
   collectParams_fields True flds prefix h
   = Some (map fst (walk_fields flds prefix), fold assign_key (walk_fields flds prefix) h)"
proof (induction flds prefix arbitrary: h rule: walk_fields.induct)
  case (1 prefix)
  then show ?case by simp
next
  case (2 tg anon ex fv flds prefix)
  from "2.prems" have rest: "all_exported flds" by simp
  show ?case
  proof (cases "tg = [] \<and> \<not> anon")
    case True
    with "2.IH"(1) [OF True rest] show ?thesis by simp
  next
    case False
    with "2.prems" have ex: ex by auto
    show ?thesis
    proof (cases fv)
      case (RParam a)
      from "2.IH"(2) [OF False RParam rest]
      show ?thesis using False ex RParam
        by (simp add: code_key_is_dotted_key assign_key_pair Let_def fun_upd_def)
    next
      case (RStruct nested)
      with "2.prems" False have n: "all_exported nested" by auto
      from "2.IH"(3) [OF False RStruct n] "2.IH"(4) [OF False RStruct rest]
      show ?thesis using False ex RStruct
        by (auto simp add: code_key_is_dotted_key Let_def)
    next
      case ROther
      from "2.IH"(5) [OF False ROther rest]
      show ?thesis using False ex ROther
        by (auto simp add: Let_def)
    qed
  qed
qed

lemma fold_assign_key_other:
  "a \<notin> fst ` set aks \<Longrightarrow> fold assign_key aks h a = h a"
  by (induction aks arbitrary: h) (auto simp: assign_key_pair)

lemma fold_assign_key_at:
  "distinct (map fst aks) \<Longrightarrow> (a, k) \<in> set aks \<Longrightarrow> key (fold assign_key aks h a) = k"
proof (induction aks arbitrary: h)
  case Nil
  then show ?case by simp
next
  case (Cons x xs)
  show ?case
  proof (cases "x = (a, k)")
    case True
    with Cons.prems have "a \<notin> fst ` set xs" by auto
    then show ?thesis
      using True by (simp add: fold_assign_key_other assign_key_pair key_def setKey_def)
  next
    case False
    with Cons.prems have "distinct (map fst xs)" "(a, k) \<in> set xs" by auto
    from Cons.IH [OF this] show ?thesis by simp
  qed
qed

text \<open>
  C8. The dotted key of a field is \<^verbatim>\<open>prefix.key\<close> when prefix and declared key are both
  non-empty, the declared key when the prefix is empty, and the prefix when the declared
  key is empty. A field without declared key that is not embedded is skipped, whatever
  it holds: the walk goes on as if the field were not there. An exported field of an
  addressable struct that has a declared key or is embedded, and is a parameter, is
  given its dotted key and collected, and the walk goes on; one that is a struct and
  not a parameter is walked with its dotted key as the prefix (so with the prefix alone
  when it is embedded without key), its parameters come before those of the fields that
  follow. For a pointer to a struct whose walked fields are exported and whose structs
  are not parameters by promotion, and any prefix, \<^verbatim>\<open>collectParams\<close> returns the struct's
  parameters in the order of the specification's walk and has assigned each its dotted
  key; when no parameter is met twice, each collected parameter ends with exactly that
  key.
\<close>

theorem walker_keys:
  "(prefix \<noteq> [] \<and> tg \<noteq> [] \<longrightarrow> dotted_key prefix tg = prefix @ ''.'' @ tg)
   \<and> (prefix = [] \<longrightarrow> dotted_key prefix tg = tg)
   \<and> (tg = [] \<longrightarrow> dotted_key prefix tg = prefix)
   \<and> (tg = [] \<and> \<not> anon \<longrightarrow>
        collectParams_fields ca (Field tg anon ex fv # flds) prefix h
          = collectParams_fields ca flds prefix h)
   \<and> ((tg \<noteq> [] \<or> anon) \<and> ex \<longrightarrow>
        collectParams_fields True (Field tg anon ex (RParam a) # flds) prefix h
          = (case collectParams_fields True flds prefix (h(a := setKey (h a) (dotted_key prefix tg))) of
               None \<Rightarrow> None
             | Some (params, h') \<Rightarrow> Some (a # params, h')))
   \<and> ((tg \<noteq> [] \<or> anon) \<and> ex \<longrightarrow>
        collectParams_fields True (Field tg anon ex (RStruct nested) # flds) prefix h
          = (case collectParams_fields True nested (dotted_key prefix tg) h of
               None \<Rightarrow> None
             | Some (inner, h1) \<Rightarrow>
                 (case collectParams_fields True flds prefix h1 of
                    None \<Rightarrow> None
                  | Some (params, h2) \<Rightarrow> Some (inner @ params, h2))))
   \<and> (all_exported flds \<and> plain_structs flds \<longrightarrow>
        collectParams (PointerTo flds) prefix h
          = Some (map fst (walk_fields flds prefix), fold assign_key (walk_fields flds prefix) h))
   \<and> (distinct (map fst (walk_fields flds prefix)) \<longrightarrow>
        (\<forall>ak\<in>set (walk_fields flds prefix).
           key (fold assign_key (walk_fields flds prefix) h (fst ak)) = snd ak))"
proof (intro conjI impI ballI)
  show "dotted_key prefix tg = prefix @ ''.'' @ tg" if "prefix \<noteq> [] \<and> tg \<noteq> []"
    using that by (simp add: dotted_key_def)
  show "dotted_key prefix tg = tg" if "prefix = []"
    using that by (simp add: dotted_key_def)
  show "dotted_key prefix tg = prefix" if "tg = []"
    using that by (simp add: dotted_key_def)
  show "collectParams_fields ca (Field tg anon ex fv # flds) prefix h
          = collectParams_fields ca flds prefix h" if "tg = [] \<and> \<not> anon"
    using that by simp
  show "collectParams_fields True (Field tg anon ex (RParam a) # flds) prefix h
          = (case collectParams_fields True flds prefix (h(a := setKey (h a) (dotted_key prefix tg))) of
               None \<Rightarrow> None
             | Some (params, h') \<Rightarrow> Some (a # params, h'))"
    if "(tg \<noteq> [] \<or> anon) \<and> ex"
    using that by (auto simp add: code_key_is_dotted_key Let_def)
  show "collectParams_fields True (Field tg anon ex (RStruct nested) # flds) prefix h
          = (case collectParams_fields True nested (dotted_key prefix tg) h of
               None \<Rightarrow> None
             | Some (inner, h1) \<Rightarrow>
                 (case collectParams_fields True flds prefix h1 of
                    None \<Rightarrow> None
                  | Some (params, h2) \<Rightarrow> Some (inner @ params, h2)))"
    if "(tg \<noteq> [] \<or> anon) \<and> ex"
    using that by (auto simp add: code_key_is_dotted_key Let_def)
  show "collectParams (PointerTo flds) prefix h
          = Some (map fst (walk_fields flds prefix), fold assign_key (walk_fields flds prefix) h)"
    if "all_exported flds \<and> plain_structs flds"
    using that by (simp add: collectParams_def collectParams_fields_walk)
  show "key (fold assign_key (walk_fields flds prefix) h (fst ak)) = snd ak"
    if "distinct (map fst (walk_fields flds prefix))" and "ak \<in> set (walk_fields flds prefix)" for ak
    using fold_assign_key_at [OF that(1), of "fst ak" "snd ak" h] that(2) by simp
qed

theorem walker_keys_witness:
  "''app'' \<noteq> [] \<and> ''db'' \<noteq> [] \<and> dotted_key ''app'' ''db'' = ''app.db''
   \<and> dotted_key [] ''db'' = ''db'' \<and> dotted_key ''app'' [] = ''app''
   \<and> collectParams_fields True [Field [] False True (RParam 20)] ''app'' db_heap
       = collectParams_fields True [] ''app'' db_heap
   \<and> collectParams_fields True [Field ''port'' False True (RParam 21)] ''app'' db_heap
       = Some ([21], db_heap(21 := setKey (db_heap 21) ''app.port''))
   \<and> collectParams_fields True [Field [] True True (RParam 25)] ''app'' db_heap
       = Some ([25], db_heap(25 := setKey (db_heap 25) ''app''))
   \<and> collectParams_fields True
         [Field [] True True (RStruct [Field ''name'' False True (RParam 24)])] ''app'' db_heap
       = Some ([24], db_heap(24 := setKey (db_heap 24) ''app.name''))
   \<and> collectParams_fields True
         [Field ''pool'' False True (RStruct [Field ''size'' False True (RParam 23)])] ''app.db'' db_heap
       = Some ([23], db_heap(23 := setKey (db_heap 23) ''app.db.pool.size''))
   \<and> all_exported app_fields \<and> plain_structs app_fields
   \<and> walk_fields app_fields ''app''
       = [(21, ''app.port''), (22, ''app.db.host''), (23, ''app.db.pool.size''),
          (24, ''app.name''), (25, ''app'')]
   \<and> distinct (map fst (walk_fields app_fields ''app''))
   \<and> collectParams (PointerTo app_fields) ''app'' db_heap
       = Some ([21, 22, 23, 24, 25],
               fold assign_key [(21, ''app.port''), (22, ''app.db.host''), (23, ''app.db.pool.size''),
                                (24, ''app.name''), (25, ''app'')] db_heap)
   \<and> key (fold assign_key [(21, ''app.port''), (22, ''app.db.host''), (23, ''app.db.pool.size''),
                            (24, ''app.name''), (25, ''app'')] db_heap 21) = ''app.port''
   \<and> key (fold assign_key [(21, ''app.port''), (22, ''app.db.host''), (23, ''app.db.pool.size''),
                            (24, ''app.name''), (25, ''app'')] db_heap 22) = ''app.db.host''
   \<and> key (fold assign_key [(21, ''app.port''), (22, ''app.db.host''), (23, ''app.db.pool.size''),
                            (24, ''app.name''), (25, ''app'')] db_heap 23) = ''app.db.pool.size''
   \<and> key (fold assign_key [(21, ''app.port''), (22, ''app.db.host''), (23, ''app.db.pool.size''),
                            (24, ''app.name''), (25, ''app'')] db_heap 24) = ''app.name''
   \<and> key (fold assign_key [(21, ''app.port''), (22, ''app.db.host''), (23, ''app.db.pool.size''),
                            (24, ''app.name''), (25, ''app'')] db_heap 25) = ''app''"
proof -
  have h1: "''app'' \<noteq> [] \<and> ''db'' \<noteq> []" by simp
  have h2: "all_exported app_fields \<and> plain_structs app_fields" by code_simp
  have w: "walk_fields app_fields ''app''
       = [(21, ''app.port''), (22, ''app.db.host''), (23, ''app.db.pool.size''),
          (24, ''app.name''), (25, ''app'')]"
    by code_simp
  have h3: "distinct (map fst (walk_fields app_fields ''app''))"
    unfolding w by simp
  have k1: "dotted_key ''app'' ''db'' = ''app'' @ ''.'' @ ''db''"
    using walker_keys [where prefix = "''app''" and tg = "''db''",
        THEN conjunct1] h1 by blast
  have k2: "dotted_key [] ''db'' = ''db''"
    using walker_keys [where prefix = "[]" and tg = "''db''",
        THEN conjunct2, THEN conjunct1] by blast
  have k3: "dotted_key ''app'' [] = ''app''"
    using walker_keys [where prefix = "''app''" and tg = "[]",
        THEN conjunct2, THEN conjunct2, THEN conjunct1] by blast
  have k4: "dotted_key ''app'' ''port'' = ''app.port''" "dotted_key ''app'' ''name'' = ''app.name''"
    "dotted_key ''app.db'' ''pool'' = ''app.db.pool''"
    "dotted_key ''app.db.pool'' ''size'' = ''app.db.pool.size''"
    by code_simp+
  have sk: "collectParams_fields True [Field [] False True (RParam 20)] ''app'' db_heap
            = collectParams_fields True [] ''app'' db_heap"
    using walker_keys [where tg = "[]" and anon = False and ca = True and ex = True
        and fv = "RParam 20" and flds = "[]" and prefix = "''app''" and h = db_heap,
        THEN conjunct2, THEN conjunct2, THEN conjunct2, THEN conjunct1]
    by blast
  have p21: "collectParams_fields True [Field ''port'' False True (RParam 21)] ''app'' db_heap
       = Some ([21], db_heap(21 := setKey (db_heap 21) ''app.port''))"
    using walker_keys [where tg = "''port''" and anon = False and ex = True and a = 21 and flds = "[]"
        and prefix = "''app''" and h = db_heap,
        THEN conjunct2, THEN conjunct2, THEN conjunct2, THEN conjunct2, THEN conjunct1]
    by (simp add: k4)
  have p25: "collectParams_fields True [Field [] True True (RParam 25)] ''app'' db_heap
       = Some ([25], db_heap(25 := setKey (db_heap 25) ''app''))"
    using walker_keys [where tg = "[]" and anon = True and ex = True and a = 25 and flds = "[]"
        and prefix = "''app''" and h = db_heap,
        THEN conjunct2, THEN conjunct2, THEN conjunct2, THEN conjunct2, THEN conjunct1]
    by (simp add: k3)
  have p24: "collectParams_fields True [Field ''name'' False True (RParam 24)] ''app'' db_heap
       = Some ([24], db_heap(24 := setKey (db_heap 24) ''app.name''))"
    using walker_keys [where tg = "''name''" and anon = False and ex = True and a = 24 and flds = "[]"
        and prefix = "''app''" and h = db_heap,
        THEN conjunct2, THEN conjunct2, THEN conjunct2, THEN conjunct2, THEN conjunct1]
    by (simp add: k4)
  have p23: "collectParams_fields True [Field ''size'' False True (RParam 23)] ''app.db.pool'' db_heap
       = Some ([23], db_heap(23 := setKey (db_heap 23) ''app.db.pool.size''))"
    using walker_keys [where tg = "''size''" and anon = False and ex = True and a = 23 and flds = "[]"
        and prefix = "''app.db.pool''" and h = db_heap,
        THEN conjunct2, THEN conjunct2, THEN conjunct2, THEN conjunct2, THEN conjunct1]
    by (simp add: k4)
  have s24: "collectParams_fields True
         [Field [] True True (RStruct [Field ''name'' False True (RParam 24)])] ''app'' db_heap
       = Some ([24], db_heap(24 := setKey (db_heap 24) ''app.name''))"
    using walker_keys [where tg = "[]" and anon = True and ex = True
        and nested = "[Field ''name'' False True (RParam 24)]" and flds = "[]"
        and prefix = "''app''" and h = db_heap,
        THEN conjunct2, THEN conjunct2, THEN conjunct2, THEN conjunct2, THEN conjunct2, THEN conjunct1]
    by (simp add: k3 p24)
  have s23: "collectParams_fields True
         [Field ''pool'' False True (RStruct [Field ''size'' False True (RParam 23)])] ''app.db'' db_heap
       = Some ([23], db_heap(23 := setKey (db_heap 23) ''app.db.pool.size''))"
    using walker_keys [where tg = "''pool''" and anon = False and ex = True
        and nested = "[Field ''size'' False True (RParam 23)]" and flds = "[]"
        and prefix = "''app.db''" and h = db_heap,
        THEN conjunct2, THEN conjunct2, THEN conjunct2, THEN conjunct2, THEN conjunct2, THEN conjunct1]
    by (simp add: k4 p23)
  have c: "collectParams (PointerTo app_fields) ''app'' db_heap
       = Some (map fst (walk_fields app_fields ''app''), fold assign_key (walk_fields app_fields ''app'') db_heap)"
    using walker_keys [where flds = app_fields and prefix = "''app''" and h = db_heap,
        THEN conjunct2, THEN conjunct2, THEN conjunct2, THEN conjunct2, THEN conjunct2, THEN conjunct2, THEN conjunct1] h2 by blast
  have a: "\<forall>ak\<in>set (walk_fields app_fields ''app'').
             key (fold assign_key (walk_fields app_fields ''app'') db_heap (fst ak)) = snd ak"
    using walker_keys [where flds = app_fields and prefix = "''app''" and h = db_heap,
        THEN conjunct2, THEN conjunct2, THEN conjunct2, THEN conjunct2, THEN conjunct2, THEN conjunct2, THEN conjunct2] h3 by blast
  from h1 k1 k2 k3 sk p21 p25 s24 s23 h2 w h3 c a show ?thesis
    unfolding w by simp
qed

end
